theory Spec2Isabelle
  imports Main "HOL-Library.Log_Nat"
begin

section \<open>Python numbers\<close>

text \<open>
  The aggregate handlers compute with Python \<^verbatim>\<open>int\<close> and \<^verbatim>\<open>float\<close>. A float is an IEEE 754
  binary64 value; it is modelled by the rational it denotes, and every float operation is the
  exact operation followed by \<open>fl64\<close>, rounding to the nearest value with a 53 bit
  significand, ties to even. The exponent is not bounded: infinities, NaN and subnormal
  numbers are outside the model (ratings are small integers and counts fit a database
  integer, so none of them arises in the handlers).
\<close>

definition pow2 :: "int \<Rightarrow> rat" where
  "pow2 k = (if 0 \<le> k then 2 ^ nat k else 1 / 2 ^ nat (- k))"

definition round_half_even :: "rat \<Rightarrow> int" where
  "round_half_even x =
     (let f = \<lfloor>x\<rfloor>; d = x - of_int f
      in if d < 1 / 2 then f else if 1 / 2 < d then f + 1 else if even f then f else f + 1)"

text \<open>\<open>ilog2 x\<close> is the binary exponent of a positive \<open>x\<close>: \<open>2 ^ ilog2 x \<le> x < 2 ^ (ilog2 x + 1)\<close>.\<close>

definition ilog2 :: "rat \<Rightarrow> int" where
  "ilog2 x =
     (let (p, q) = quotient_of x; k = bitlen p - bitlen q
      in if pow2 k \<le> x then k else k - 1)"

definition fl64 :: "rat \<Rightarrow> rat" where
  "fl64 x =
     (if x = 0 then 0
      else let e = ilog2 \<bar>x\<bar> - 52; m = round_half_even (\<bar>x\<bar> / pow2 e)
           in sgn x * of_int m * pow2 e)"

text \<open>
  What a handler can raise: FastAPI's \<^verbatim>\<open>HTTPException\<close> with its status code and detail
  (its headers are left out), and the Python and database exceptions that reach the caller.
\<close>

datatype error =
    HTTPException nat string
  | ZeroDivisionError
  | AttributeError
  | TypeError
  | IntegrityError
  | ValidationError

datatype number = PyInt int | PyFloat rat

text \<open>\<^verbatim>\<open>float(i)\<close>, as the mixed operations apply it to an int operand.\<close>

fun to_float :: "number \<Rightarrow> rat" where
  "to_float (PyInt i) = fl64 (of_int i)"
| "to_float (PyFloat x) = x"

fun py_mul :: "number \<Rightarrow> number \<Rightarrow> number" where
  "py_mul (PyInt a) (PyInt b) = PyInt (a * b)"
| "py_mul a b = PyFloat (fl64 (to_float a * to_float b))"

fun py_add :: "number \<Rightarrow> number \<Rightarrow> number" where
  "py_add (PyInt a) (PyInt b) = PyInt (a + b)"
| "py_add a b = PyFloat (fl64 (to_float a + to_float b))"

text \<open>True division \<^verbatim>\<open>a / b\<close>: always a float, correctly rounded also for two ints.\<close>

fun py_truediv :: "number \<Rightarrow> number \<Rightarrow> error + rat" where
  "py_truediv (PyInt a) (PyInt b) =
     (if b = 0 then Inl ZeroDivisionError else Inr (fl64 (of_int a / of_int b)))"
| "py_truediv a b =
     (if to_float b = 0 then Inl ZeroDivisionError else Inr (fl64 (to_float a / to_float b)))"

text \<open>\<^verbatim>\<open>x or 0\<close> for a nullable float: \<^verbatim>\<open>None\<close> and \<^verbatim>\<open>0.0\<close> are falsy and give the int 0.\<close>

definition or_0 :: "rat option \<Rightarrow> number" where
  "or_0 x = (case x of None \<Rightarrow> PyInt 0 | Some v \<Rightarrow> if v = 0 then PyInt 0 else PyFloat v)"


section \<open>Data model (app/models)\<close>

type_synonym datetime = nat

text \<open>
  \<^verbatim>\<open>Base\<close> gives every table \<^verbatim>\<open>id\<close>, \<^verbatim>\<open>created_at\<close>, \<^verbatim>\<open>updated_at\<close> and a nullable
  \<^verbatim>\<open>deleted_at\<close>. \<^verbatim>\<open>Like\<close> overrides \<^verbatim>\<open>id = None\<close> (its key is the pair of user and post),
  so the timestamp columns are a record of their own and \<open>base\<close> adds the primary key
  (\<open>ident\<close>, Python's \<^verbatim>\<open>id\<close>). Timestamps are points of a linear clock; a \<^verbatim>\<open>Float\<close> column
  holds a Python float and gives it back unchanged.
\<close>

record timestamps =
  created_at :: datetime
  updated_at :: datetime
  deleted_at :: "datetime option"

record base = timestamps +
  ident :: string

record user = base +
  email :: string
  hashed_password :: string

record city = base +
  name :: string
  country :: string
  description :: "string option"
  latitude :: "rat option"
  longitude :: "rat option"
  average_rating :: "rat option"
  review_count :: int

record review = base +
  city_id :: string
  user_id :: string
  rating :: int
  comment :: "string option"

datatype FlightStatus = SCHEDULED | BOARDING | DEPARTED | ARRIVED | DELAYED | CANCELED

record flight = base +
  flight_number :: string
  airline :: string
  description :: "string option"
  origin_city_id :: string
  destination_city_id :: string
  status :: FlightStatus
  departure :: datetime
  arrival :: datetime

record post = base +
  title :: string
  description :: string
  like_count :: int
  user_id :: string
  flight_id :: string

record comment = base +
  content :: string
  user_id :: string
  post_id :: string

record like = timestamps +
  user_id :: string
  post_id :: string

text \<open>The database: one list of rows per table, named as \<^verbatim>\<open>__tablename__\<close> names it.\<close>

record database =
  users :: "user list"
  cities :: "city list"
  reviews :: "review list"
  flights :: "flight list"
  posts :: "post list"
  comments :: "comment list"
  post_likes :: "like list"


section \<open>Request schemas (app/schemas)\<close>

record ReviewCreate =
  rating :: int
  comment :: "string option"

record ReviewUpdate =
  rating :: "int option"
  comment :: "string option"

text \<open>
  The partial updates are dumped with \<^verbatim>\<open>exclude_unset=True\<close>: a field is absent (\<open>None\<close>),
  or present with a value that may itself be \<^verbatim>\<open>None\<close>.
\<close>

record PostUpdate =
  title :: "string option option"
  description :: "string option option"

record CommentUpdate =
  content :: "string option option"

record TokenData =
  email :: string


section \<open>The session\<close>

text \<open>
  \<^verbatim>\<open>first()\<close> of a query filtered by primary key. Handlers receive the clock reading
  (\<^verbatim>\<open>datetime.utcnow()\<close>, \<^verbatim>\<open>func.now()\<close>) and fresh primary keys (\<^verbatim>\<open>uuid4()\<close>) as arguments.
\<close>

definition get_by_id :: "'a base_scheme list \<Rightarrow> string \<Rightarrow> 'a base_scheme option" where
  "get_by_id tbl i = find (\<lambda>r. ident r = i) tbl"

text \<open>
  \<^verbatim>\<open>db.add(obj); db.commit(); db.refresh(obj)\<close> for an object \<open>loaded\<close> from the session whose
  attributes now read \<open>obj\<close>: the unit of work writes the row of that primary key only when
  an attribute differs, and then \<^verbatim>\<open>onupdate\<close> stamps \<^verbatim>\<open>updated_at\<close>. The result is the new
  table and the refreshed object.
\<close>

definition commit_refresh ::
  "datetime \<Rightarrow> 'a base_scheme \<Rightarrow> 'a base_scheme \<Rightarrow> 'a base_scheme list
     \<Rightarrow> 'a base_scheme list \<times> 'a base_scheme" where
  "commit_refresh now loaded obj tbl =
     (let row = (if obj = loaded then loaded else obj\<lparr>updated_at := now\<rparr>)
      in (map (\<lambda>r. if ident r = ident loaded then row else r) tbl, row))"


section \<open>Authentication (app/config/auth.py, app/handlers/auth.py)\<close>







section \<open>Cities and reviews (app/handlers/city.py, app/routes/city.py)\<close>

definition get_city_by_id :: "database \<Rightarrow> string \<Rightarrow> city option" where
  "get_city_by_id db cid = find (\<lambda>c. ident c = cid \<and> deleted_at c = None) (cities db)"

definition delete_city :: "database \<Rightarrow> city \<Rightarrow> datetime \<Rightarrow> database \<times> city" where
  "delete_city db db_city now =
     (if deleted_at db_city = None then
        (let (tbl, row) = commit_refresh now db_city (db_city\<lparr>deleted_at := Some now\<rparr>) (cities db)
         in (db\<lparr>cities := tbl\<rparr>, row))
      else (db, db_city))"

definition restore_city :: "database \<Rightarrow> string \<Rightarrow> datetime \<Rightarrow> database \<times> city option" where
  "restore_city db cid now =
     (case get_by_id (cities db) cid of
        None \<Rightarrow> (db, None)
      | Some db_city \<Rightarrow>
          if deleted_at db_city \<noteq> None then
            (let (tbl, row) = commit_refresh now db_city (db_city\<lparr>deleted_at := None\<rparr>) (cities db)
             in (db\<lparr>cities := tbl\<rparr>, Some row))
          else (db, Some db_city))"

text \<open>
  \<open>add_review_to_city\<close>: the conflict check, then the running total rebuilt from the
  stored average and count. The new \<^verbatim>\<open>Review\<close> row gets the primary key \<open>new_id\<close> and the
  server's timestamps.
\<close>

definition add_review_to_city ::
  "database \<Rightarrow> city \<Rightarrow> ReviewCreate \<Rightarrow> string \<Rightarrow> string \<Rightarrow> datetime
     \<Rightarrow> database \<times> (error + review)" where
  "add_review_to_city db c review_in uid new_id now =
     (case find (\<lambda>r. city_id r = ident c \<and> review.user_id r = uid) (reviews db) of
        Some existing \<Rightarrow> (db, Inl (HTTPException 400 ''You have already reviewed this city''))
      | None \<Rightarrow>
          (let db_review =
                 \<lparr>created_at = now, updated_at = now, deleted_at = None, ident = new_id,
                  city_id = ident c, review.user_id = uid,
                  review.rating = ReviewCreate.rating review_in,
                  review.comment = ReviewCreate.comment review_in\<rparr>;
               current_total = py_mul (or_0 (average_rating c)) (PyInt (review_count c));
               new_count = review_count c + 1;
               new_total = py_add current_total (PyInt (ReviewCreate.rating review_in))
           in case py_truediv new_total (PyInt new_count) of
                Inl e \<Rightarrow> (db, Inl e)
              | Inr avg \<Rightarrow>
                  (let (tbl, row) =
                         commit_refresh now c
                           (c\<lparr>average_rating := Some avg, review_count := new_count\<rparr>) (cities db)
                   in (db\<lparr>reviews := reviews db @ [db_review], cities := tbl\<rparr>, Inr db_review))))"

text \<open>
  \<open>update_review\<close>: \<^verbatim>\<open>db_review.city\<close> is the row the foreign key names, whatever its
  \<^verbatim>\<open>deleted_at\<close>; reading an attribute of a missing one raises \<^verbatim>\<open>AttributeError\<close>.
\<close>

definition update_review ::
  "database \<Rightarrow> string \<Rightarrow> string \<Rightarrow> ReviewUpdate \<Rightarrow> datetime \<Rightarrow> database \<times> (error + review)" where
  "update_review db review_id uid review_in now =
     (case get_by_id (reviews db) review_id of
        None \<Rightarrow> (db, Inl (HTTPException 404 ''Review not found''))
      | Some db_review \<Rightarrow>
          if review.user_id db_review \<noteq> uid
          then (db, Inl (HTTPException 404 ''Review not found''))
          else
            (let old_rating = review.rating db_review;
                 new_rating = (case ReviewUpdate.rating review_in of Some r \<Rightarrow> r | None \<Rightarrow> old_rating);
                 delta = new_rating - old_rating;
                 r1 = (case ReviewUpdate.rating review_in of
                         Some _ \<Rightarrow> db_review\<lparr>review.rating := new_rating\<rparr> | None \<Rightarrow> db_review);
                 r2 = (case ReviewUpdate.comment review_in of
                         Some t \<Rightarrow> r1\<lparr>review.comment := Some t\<rparr> | None \<Rightarrow> r1)
             in case get_by_id (cities db) (city_id db_review) of
                  None \<Rightarrow> (db, Inl AttributeError)
                | Some c \<Rightarrow>
                    (let total_before = py_mul (or_0 (average_rating c)) (PyInt (review_count c));
                         total_after = py_add total_before (PyInt delta)
                     in case py_truediv total_after (PyInt (review_count c)) of
                          Inl e \<Rightarrow> (db, Inl e)
                        | Inr avg \<Rightarrow>
                            (let (rtbl, rrow) = commit_refresh now db_review r2 (reviews db);
                                 (ctbl, crow) =
                                   commit_refresh now c (c\<lparr>average_rating := Some avg\<rparr>) (cities db)
                             in (db\<lparr>reviews := rtbl, cities := ctbl\<rparr>, Inr rrow)))))"

text \<open>The route \<^verbatim>\<open>POST /cities/{city_id}/reviews\<close>, after authentication.\<close>

definition create_city_review ::
  "database \<Rightarrow> string \<Rightarrow> ReviewCreate \<Rightarrow> user \<Rightarrow> string \<Rightarrow> datetime
     \<Rightarrow> database \<times> (error + review)" where
  "create_city_review db cid review_in current_user new_id now =
     (case get_city_by_id db cid of
        None \<Rightarrow> (db, Inl (HTTPException 404 ''City not found''))
      | Some db_city \<Rightarrow> add_review_to_city db db_city review_in (ident current_user) new_id now)"


section \<open>Flights (app/handlers/flight.py)\<close>

definition soft_delete_flight :: "database \<Rightarrow> flight \<Rightarrow> datetime \<Rightarrow> database \<times> flight" where
  "soft_delete_flight db db_flight now =
     (if deleted_at db_flight = None then
        (let (tbl, row) =
               commit_refresh now db_flight (db_flight\<lparr>deleted_at := Some now\<rparr>) (flights db)
         in (db\<lparr>flights := tbl\<rparr>, row))
      else (db, db_flight))"

definition restore_flight :: "database \<Rightarrow> string \<Rightarrow> datetime \<Rightarrow> database \<times> flight option" where
  "restore_flight db fid now =
     (case get_by_id (flights db) fid of
        None \<Rightarrow> (db, None)
      | Some db_flight \<Rightarrow>
          if deleted_at db_flight \<noteq> None then
            (let (tbl, row) =
                   commit_refresh now db_flight (db_flight\<lparr>deleted_at := None\<rparr>) (flights db)
             in (db\<lparr>flights := tbl\<rparr>, Some row))
          else (db, None))"


section \<open>Posts (app/handlers/post.py)\<close>

definition get_post_by_id :: "database \<Rightarrow> string \<Rightarrow> post option" where
  "get_post_by_id db pid = find (\<lambda>p. ident p = pid \<and> deleted_at p = None) (posts db)"

text \<open>
  The dict \<open>get_posts_paginated\<close> returns (\<open>page_size\<close> is its key \<^verbatim>\<open>size\<close>). Rows with
  equal \<^verbatim>\<open>created_at\<close> come in an order SQL leaves open; the model keeps their table order.
  \<^verbatim>\<open>if flight_id:\<close> is false for \<^verbatim>\<open>None\<close> and for the empty string. The engine is SQLite
  (app/config/database.py): a negative \<^verbatim>\<open>OFFSET\<close> counts as 0 and a negative \<^verbatim>\<open>LIMIT\<close> is no
  limit.
\<close>

record page_data =
  items :: "post list"
  total :: int
  page :: int
  page_size :: int

definition get_posts_paginated :: "database \<Rightarrow> int \<Rightarrow> int \<Rightarrow> string option \<Rightarrow> page_data" where
  "get_posts_paginated db pg sz fid =
     (let offset = (pg - 1) * sz;
          base_query = filter (\<lambda>p. deleted_at p = None) (posts db);
          base_query = (case fid of
                          None \<Rightarrow> base_query
                        | Some f \<Rightarrow> if f = [] then base_query
                                    else filter (\<lambda>p. flight_id p = f) base_query);
          ordered = rev (sort_key created_at (rev base_query));
          skipped = drop (nat offset) ordered
      in \<lparr>items = (if sz < 0 then skipped else take (nat sz) skipped),
          total = int (length base_query), page = pg, page_size = sz\<rparr>)"

text \<open>
  \<^verbatim>\<open>setattr\<close> of every dumped field, then the commit; \<^verbatim>\<open>title\<close> and \<^verbatim>\<open>description\<close> are
  \<^verbatim>\<open>nullable=False\<close>, so a field set to \<^verbatim>\<open>None\<close> fails at the flush.
\<close>

definition update_post ::
  "database \<Rightarrow> post \<Rightarrow> PostUpdate \<Rightarrow> string \<Rightarrow> datetime \<Rightarrow> database \<times> (error + post)" where
  "update_post db db_post post_in uid now =
     (if post.user_id db_post \<noteq> uid
      then (db, Inl (HTTPException 403 ''Not authorized to update this post''))
      else if PostUpdate.title post_in = Some None \<or> PostUpdate.description post_in = Some None
      then (db, Inl IntegrityError)
      else
        (let p1 = (case PostUpdate.title post_in of
                     Some (Some t) \<Rightarrow> db_post\<lparr>post.title := t\<rparr> | _ \<Rightarrow> db_post);
             p2 = (case PostUpdate.description post_in of
                     Some (Some d) \<Rightarrow> p1\<lparr>post.description := d\<rparr> | _ \<Rightarrow> p1);
             (tbl, row) = commit_refresh now db_post p2 (posts db)
         in (db\<lparr>posts := tbl\<rparr>, Inr row)))"

definition soft_delete_post ::
  "database \<Rightarrow> post \<Rightarrow> string \<Rightarrow> datetime \<Rightarrow> database \<times> (error + post)" where
  "soft_delete_post db db_post uid now =
     (if post.user_id db_post \<noteq> uid
      then (db, Inl (HTTPException 403 ''Not authorized to delete this post''))
      else if deleted_at db_post = None then
        (let (tbl, row) = commit_refresh now db_post (db_post\<lparr>deleted_at := Some now\<rparr>) (posts db)
         in (db\<lparr>posts := tbl\<rparr>, Inr row))
      else (db, Inr db_post))"

definition restore_post ::
  "database \<Rightarrow> string \<Rightarrow> string \<Rightarrow> datetime \<Rightarrow> database \<times> (error + post option)" where
  "restore_post db pid uid now =
     (case get_by_id (posts db) pid of
        None \<Rightarrow> (db, Inr None)
      | Some db_post \<Rightarrow>
          if deleted_at db_post \<noteq> None then
            (if post.user_id db_post \<noteq> uid
             then (db, Inl (HTTPException 403 ''Not authorized to restore this post''))
             else
               (let (tbl, row) = commit_refresh now db_post (db_post\<lparr>deleted_at := None\<rparr>) (posts db)
                in (db\<lparr>posts := tbl\<rparr>, Inr (Some row))))
          else (db, Inr None))"


section \<open>Comments (app/handlers/comment.py, app/routes/post.py)\<close>

definition update_comment ::
  "database \<Rightarrow> comment \<Rightarrow> CommentUpdate \<Rightarrow> string \<Rightarrow> datetime \<Rightarrow> database \<times> (error + comment)" where
  "update_comment db db_comment comment_in uid now =
     (if comment.user_id db_comment \<noteq> uid
      then (db, Inl (HTTPException 403 ''Not authorized to update this comment''))
      else if CommentUpdate.content comment_in = Some None
      then (db, Inl IntegrityError)
      else
        (let c1 = (case CommentUpdate.content comment_in of
                     Some (Some t) \<Rightarrow> db_comment\<lparr>comment.content := t\<rparr> | _ \<Rightarrow> db_comment);
             (tbl, row) = commit_refresh now db_comment c1 (comments db)
         in (db\<lparr>comments := tbl\<rparr>, Inr row)))"

definition soft_delete_comment ::
  "database \<Rightarrow> comment \<Rightarrow> string \<Rightarrow> datetime \<Rightarrow> database \<times> (error + comment)" where
  "soft_delete_comment db db_comment uid now =
     (if comment.user_id db_comment \<noteq> uid
      then (db, Inl (HTTPException 403 ''Not authorized to delete this comment''))
      else if deleted_at db_comment = None then
        (let (tbl, row) =
               commit_refresh now db_comment (db_comment\<lparr>deleted_at := Some now\<rparr>) (comments db)
         in (db\<lparr>comments := tbl\<rparr>, Inr row))
      else (db, Inr db_comment))"

definition restore_comment ::
  "database \<Rightarrow> comment \<Rightarrow> string \<Rightarrow> datetime \<Rightarrow> database \<times> (error + comment)" where
  "restore_comment db db_comment uid now =
     (if comment.user_id db_comment \<noteq> uid
      then (db, Inl (HTTPException 403 ''Not authorized to restore this comment''))
      else if deleted_at db_comment \<noteq> None then
        (let (tbl, row) =
               commit_refresh now db_comment (db_comment\<lparr>deleted_at := None\<rparr>) (comments db)
         in (db\<lparr>comments := tbl\<rparr>, Inr row))
      else (db, Inr db_comment))"


text \<open>
  The comment routes of app/routes/post.py that delete and restore (\<open>route_\<close> tells them
  from the handlers they call), after authentication. Both look the comment up with
  \<open>get_comment_by_id\<close>.
\<close>

definition get_comment_by_id :: "database \<Rightarrow> string \<Rightarrow> comment option" where
  "get_comment_by_id db comment_id =
     find (\<lambda>c. ident c = comment_id \<and> deleted_at c = None) (comments db)"

definition route_delete_comment ::
  "database \<Rightarrow> string \<Rightarrow> string \<Rightarrow> user \<Rightarrow> datetime \<Rightarrow> database \<times> (error + string)" where
  "route_delete_comment db pid comment_id current_user now =
     (case get_comment_by_id db comment_id of
        None \<Rightarrow> (db, Inl (HTTPException 404 ''Comment not found''))
      | Some db_comment \<Rightarrow>
          if comment.post_id db_comment \<noteq> pid
          then (db, Inl (HTTPException 400 ''Comment does not belong to the specified post''))
          else
            (case soft_delete_comment db db_comment (ident current_user) now of
               (db', Inl e) \<Rightarrow> (db', Inl e)
             | (db', Inr _) \<Rightarrow> (db', Inr ''Comment successfully deleted'')))"

definition route_restore_comment ::
  "database \<Rightarrow> string \<Rightarrow> string \<Rightarrow> user \<Rightarrow> datetime \<Rightarrow> database \<times> (error + string)" where
  "route_restore_comment db pid comment_id current_user now =
     (case get_comment_by_id db comment_id of
        None \<Rightarrow> (db, Inl (HTTPException 404 ''Comment not found''))
      | Some db_comment \<Rightarrow>
          if comment.post_id db_comment \<noteq> pid
          then (db, Inl (HTTPException 400 ''Comment does not belong to the specified post''))
          else if deleted_at db_comment = None
          then (db, Inl (HTTPException 400 ''Comment is not deleted''))
          else
            (case restore_comment db db_comment (ident current_user) now of
               (db', Inl e) \<Rightarrow> (db', Inl e)
             | (db', Inr _) \<Rightarrow> (db', Inr ''Comment successfully restored'')))"


section \<open>Likes (app/handlers/like.py)\<close>

text \<open>
  \<^verbatim>\<open>db.delete(existing_like)\<close> deletes by the composite primary key; the new \<^verbatim>\<open>Like\<close> gets the
  server's timestamps.
\<close>

definition toggle_like_post :: "database \<Rightarrow> post \<Rightarrow> string \<Rightarrow> datetime \<Rightarrow> database \<times> post" where
  "toggle_like_post db db_post uid now =
     (case find (\<lambda>l. like.post_id l = ident db_post \<and> like.user_id l = uid) (post_likes db) of
        Some existing_like \<Rightarrow>
          (let ls = filter (\<lambda>l. \<not> (like.user_id l = like.user_id existing_like
                                    \<and> like.post_id l = like.post_id existing_like)) (post_likes db);
               (tbl, row) =
                 commit_refresh now db_post
                   (db_post\<lparr>like_count := max 0 (like_count db_post - 1)\<rparr>) (posts db)
           in (db\<lparr>post_likes := ls, posts := tbl\<rparr>, row))
      | None \<Rightarrow>
          (let new_like = \<lparr>created_at = now, updated_at = now, deleted_at = None,
                           like.user_id = uid, like.post_id = ident db_post\<rparr>;
               (tbl, row) =
                 commit_refresh now db_post (db_post\<lparr>like_count := like_count db_post + 1\<rparr>) (posts db)
           in (db\<lparr>post_likes := post_likes db @ [new_like], posts := tbl\<rparr>, row)))"


section \<open>The posts listing route (app/routes/post.py)\<close>

text \<open>
  A Python call by keywords binds each keyword to a parameter of the callee. The callee's
  signature is the list of its parameters without a default and the list of those with
  one; a keyword that names neither, or a parameter without a default that no keyword
  names, raises \<^verbatim>\<open>TypeError\<close> before the body runs.
\<close>

record signature =
  required :: "string list"
  optional :: "string list"

definition call_by_keywords :: "signature \<Rightarrow> string list \<Rightarrow> 'a \<Rightarrow> error + 'a" where
  "call_by_keywords sg keywords body =
     (if list_ex (\<lambda>k. k \<notin> set (required sg) \<and> k \<notin> set (optional sg)) keywords then Inl TypeError
      else if list_ex (\<lambda>p. p \<notin> set keywords) (required sg) then Inl TypeError
      else Inr body)"

text \<open>\<^verbatim>\<open>def get_posts_paginated(db, page, size, *, flight_id=None)\<close>\<close>

definition get_posts_paginated_signature :: signature where
  "get_posts_paginated_signature =
     \<lparr>required = [''db'', ''page'', ''size''], optional = [''flight_id'']\<rparr>"

text \<open>\<^verbatim>\<open>PostListResponse(**post_page_data)\<close>: \<^verbatim>\<open>Page\<close> validates \<^verbatim>\<open>page >= 1\<close> and \<^verbatim>\<open>size >= 1\<close>.\<close>

definition PostListResponse :: "page_data \<Rightarrow> error + page_data" where
  "PostListResponse d = (if page d < 1 \<or> page_size d < 1 then Inl ValidationError else Inr d)"

text \<open>
  \<open>list_posts\<close> calls the handler with the keywords \<^verbatim>\<open>db\<close>, \<^verbatim>\<open>page\<close>, \<^verbatim>\<open>size\<close>,
  \<^verbatim>\<open>flight_id\<close>, \<^verbatim>\<open>q\<close> and \<^verbatim>\<open>author_id\<close>.
\<close>

definition list_posts ::
  "database \<Rightarrow> int \<Rightarrow> int \<Rightarrow> string option \<Rightarrow> string option \<Rightarrow> string option \<Rightarrow> error + page_data" where
  "list_posts db pg sz fid q author_id =
     (case call_by_keywords get_posts_paginated_signature
             [''db'', ''page'', ''size'', ''flight_id'', ''q'', ''author_id'']
             (get_posts_paginated db pg sz fid) of
        Inl e \<Rightarrow> Inl e
      | Inr post_page_data \<Rightarrow> PostListResponse post_page_data)"


section \<open>Notions used in the statements\<close>

text \<open>The \<^verbatim>\<open>(user_id, post_id)\<close> keys of the \<^verbatim>\<open>post_likes\<close> rows.\<close>

definition like_keys :: "database \<Rightarrow> (string \<times> string) set" where
  "like_keys db = set (map (\<lambda>l. (like.user_id l, like.post_id l)) (post_likes db))"

text \<open>
  The unit roundoff of binary64, and \<open>rel_within n x y\<close>: \<open>x\<close> lies within the factor
  \<open>(1 + 2^-53)^n\<close> of \<open>y\<close>, which is as far as \<open>n\<close> roundings can take a value from \<open>y\<close>.
\<close>

definition unit_roundoff :: rat where
  "unit_roundoff = 1 / 2 ^ 53"

definition rel_within :: "nat \<Rightarrow> rat \<Rightarrow> rat \<Rightarrow> bool" where
  "rel_within n x y \<longleftrightarrow>
     y / (1 + unit_roundoff) ^ n \<le> x \<and> x \<le> y * (1 + unit_roundoff) ^ n"

text \<open>
  \<open>abs_within n M x y\<close>: \<open>x\<close> differs from \<open>y\<close> by at most \<open>((1 + 2^-53)^n - 1) * M\<close>, which is
  as far as \<open>n\<close> roundings can take the result of a computation from its exact value \<open>y\<close>
  when \<open>M\<close> bounds the magnitudes of its intermediate sums. Unlike \<open>rel_within\<close> it speaks
  of differences too, where the operands may cancel.
\<close>

definition abs_within :: "nat \<Rightarrow> rat \<Rightarrow> rat \<Rightarrow> rat \<Rightarrow> bool" where
  "abs_within n M x y \<longleftrightarrow> \<bar>x - y\<bar> \<le> ((1 + unit_roundoff) ^ n - 1) * M"

text \<open>The mean of a list of ratings, in exact arithmetic.\<close>

definition mean :: "int list \<Rightarrow> rat" where
  "mean rs = of_int (sum_list rs) / of_nat (length rs)"

text \<open>
  The arithmetic of \<open>add_review_to_city\<close> on its own: the new average from the stored
  average, the stored count and the new rating; and its iteration over a list of ratings.
\<close>

definition new_average :: "rat option \<Rightarrow> int \<Rightarrow> int \<Rightarrow> error + rat" where
  "new_average a c r =
     py_truediv (py_add (py_mul (or_0 a) (PyInt c)) (PyInt r)) (PyInt (c + 1))"

fun running_average :: "rat option \<Rightarrow> int \<Rightarrow> int list \<Rightarrow> error + rat option" where
  "running_average a c [] = Inr a"
| "running_average a c (r # rs) =
     (case new_average a c r of
        Inl e \<Rightarrow> Inl e
      | Inr v \<Rightarrow> running_average (Some v) (c + 1) rs)"

text \<open>
  A review request as the route \<^verbatim>\<open>POST /cities/{city_id}/reviews\<close> gets it: the authenticated
  user, the body, and the primary key and clock reading the new row will get.
  \<open>submit_reviews\<close> serves a list of them in order and stops at the first error;
  \<open>aggregates_after\<close> reads the city's \<^verbatim>\<open>review_count\<close> and \<^verbatim>\<open>average_rating\<close> afterwards.
\<close>

record review_request =
  req_user :: user
  req_body :: ReviewCreate
  req_id :: string
  req_time :: datetime

fun submit_reviews :: "database \<Rightarrow> string \<Rightarrow> review_request list \<Rightarrow> error + database" where
  "submit_reviews db cid [] = Inr db"
| "submit_reviews db cid (s # ss) =
     (case create_city_review db cid (req_body s) (req_user s) (req_id s) (req_time s) of
        (db', Inr _) \<Rightarrow> submit_reviews db' cid ss
      | (_, Inl e) \<Rightarrow> Inl e)"

definition aggregates_after ::
  "database \<Rightarrow> string \<Rightarrow> review_request list \<Rightarrow> (int \<times> rat option) option" where
  "aggregates_after db cid subs =
     (case submit_reviews db cid subs of
        Inl e \<Rightarrow> None
      | Inr db' \<Rightarrow> map_option (\<lambda>c. (review_count c, average_rating c)) (get_city_by_id db' cid))"


section \<open>Example data\<close>

text \<open>
  A small database: the user \<^verbatim>\<open>alice\<close> (her row soft-deleted at time 7), her review of Paris,
  a flight, her post on it with her comment and her like.
\<close>

definition ex_user :: user where
  "ex_user = \<lparr>created_at = 1, updated_at = 7, deleted_at = Some 7, ident = ''alice'',
     user.email = ''alice@example.com'', hashed_password = ''hash-of-secret''\<rparr>"

definition ex_city :: city where
  "ex_city = \<lparr>created_at = 1, updated_at = 3, deleted_at = None, ident = ''paris'',
     name = ''Paris'', country = ''France'', city.description = None, latitude = None,
     longitude = None, average_rating = Some 4, review_count = 1\<rparr>"

definition ex_review :: review where
  "ex_review = \<lparr>created_at = 3, updated_at = 3, deleted_at = None, ident = ''r1'',
     city_id = ''paris'', review.user_id = ''alice'', review.rating = 4,
     review.comment = None\<rparr>"

definition ex_flight :: flight where
  "ex_flight = \<lparr>created_at = 1, updated_at = 1, deleted_at = None, ident = ''f1'',
     flight_number = ''LH100'', airline = ''Lufthansa'', flight.description = None,
     origin_city_id = ''paris'', destination_city_id = ''rome'', status = SCHEDULED,
     departure = 10, arrival = 20\<rparr>"

definition ex_post :: post where
  "ex_post = \<lparr>created_at = 2, updated_at = 4, deleted_at = None, ident = ''p1'',
     post.title = ''Window seat'', post.description = ''Smooth flight'', like_count = 1,
     post.user_id = ''alice'', flight_id = ''f1''\<rparr>"

definition ex_comment :: comment where
  "ex_comment = \<lparr>created_at = 3, updated_at = 3, deleted_at = None, ident = ''c1'',
     comment.content = ''Agreed'', comment.user_id = ''alice'', comment.post_id = ''p1''\<rparr>"

definition ex_like :: like where
  "ex_like = \<lparr>created_at = 4, updated_at = 4, deleted_at = None,
     like.user_id = ''alice'', like.post_id = ''p1''\<rparr>"

definition ex_db :: database where
  "ex_db = \<lparr>users = [ex_user], cities = [ex_city], reviews = [ex_review],
     flights = [ex_flight], posts = [ex_post], comments = [ex_comment],
     post_likes = [ex_like]\<rparr>"


text \<open>
  Paris before any review, and eight requests by eight users with the ratings
  1, 3, 5, 5, 5, 5, 5, 1.
\<close>

definition ex_city0 :: city where
  "ex_city0 = ex_city\<lparr>average_rating := Some 0, review_count := 0\<rparr>"

definition ex_db0 :: database where
  "ex_db0 = ex_db\<lparr>cities := [ex_city0], reviews := []\<rparr>"

definition ex_request :: "string \<Rightarrow> int \<Rightarrow> datetime \<Rightarrow> review_request" where
  "ex_request who r t =
     \<lparr>req_user = \<lparr>created_at = 1, updated_at = 1, deleted_at = None, ident = who,
                   user.email = who @ ''@example.com'', hashed_password = ''x''\<rparr>,
      req_body = \<lparr>ReviewCreate.rating = r, ReviewCreate.comment = None\<rparr>,
      req_id = ''review-by-'' @ who, req_time = t\<rparr>"

definition ex_requests :: "review_request list" where
  "ex_requests =
     [ex_request ''u1'' 1 11, ex_request ''u2'' 3 12, ex_request ''u3'' 5 13,
      ex_request ''u4'' 5 14, ex_request ''u5'' 5 15, ex_request ''u6'' 5 16,
      ex_request ''u7'' 5 17, ex_request ''u8'' 1 18]"


text \<open>
  Three requests with the ratings 1, 1, 2, and the database they lead to from \<open>ex_db0\<close>:
  Paris with three reviews and the average 6004799503160661 / 4503599627370496, the float
  nearest to 4 / 3 (Python prints 1.3333333333333333).
\<close>

definition ex_requests3 :: "review_request list" where
  "ex_requests3 = [ex_request ''u1'' 1 11, ex_request ''u2'' 1 12, ex_request ''u3'' 2 13]"

definition ex_review3 :: "string \<Rightarrow> int \<Rightarrow> datetime \<Rightarrow> review" where
  "ex_review3 who r t = \<lparr>created_at = t, updated_at = t, deleted_at = None,
     ident = ''review-by-'' @ who, city_id = ''paris'', review.user_id = who,
     review.rating = r, review.comment = None\<rparr>"

definition ex_city3 :: city where
  "ex_city3 = ex_city\<lparr>average_rating := Some (6004799503160661 / 4503599627370496),
     review_count := 3, updated_at := 13\<rparr>"

definition ex_db3 :: database where
  "ex_db3 = ex_db\<lparr>cities := [ex_city3],
     reviews := [ex_review3 ''u1'' 1 11, ex_review3 ''u2'' 1 12, ex_review3 ''u3'' 2 13]\<rparr>"


section \<open>Rounding\<close>

lemma pow2_powi: "pow2 k = 2 powi k"
  by (simp add: pow2_def power_int_def inverse_eq_divide power_one_over)

lemma pow2_pos: "0 < pow2 k"
  by (simp add: pow2_powi)

lemma pow2_add: "pow2 (a + b) = pow2 a * pow2 b"
  by (simp add: pow2_powi power_int_add)

lemma pow2_nat: "0 \<le> k \<Longrightarrow> pow2 k = 2 ^ nat k"
  by (simp add: pow2_def)

lemma ilog2_bounds:
  assumes "0 < x"
  shows "pow2 (ilog2 x) \<le> x \<and> x < 2 * pow2 (ilog2 x)"
proof -
  obtain p q where pq: "quotient_of x = (p, q)" by (cases "quotient_of x")
  have q: "0 < q" using pq by (rule quotient_of_denom_pos)
  have x: "x = of_int p / of_int q" using pq by (rule quotient_of_div)
  have p: "0 < p" using assms q unfolding x by (simp add: zero_less_divide_iff)
  define bp where "bp = bitlen p"
  define bq where "bq = bitlen q"
  have bp1: "1 \<le> bp" and bq1: "1 \<le> bq"
    using p q by (auto simp: bp_def bq_def bitlen_alt_def)
  have pb: "2 ^ nat (bp - 1) \<le> p" "p < 2 ^ nat bp"
    using bitlen_bounds [OF p] by (simp_all add: bp_def)
  have qb: "2 ^ nat (bq - 1) \<le> q" "q < 2 ^ nat bq"
    using bitlen_bounds [OF q] by (simp_all add: bq_def)
  have pr: "pow2 (bp - 1) \<le> of_int p" "of_int p < pow2 bp"
    using pb bp1 by (simp_all add: pow2_nat)
  have qr: "pow2 (bq - 1) \<le> of_int q" "of_int q < pow2 bq"
    using qb bq1 by (simp_all add: pow2_nat)
  have qpos: "(0::rat) < of_int q" using q by simp
  have up: "x < pow2 (bp - bq + 1)"
  proof -
    have "x * of_int q < pow2 bp" using pr(2) qpos unfolding x by simp
    also have "\<dots> = pow2 (bp - bq + 1) * pow2 (bq - 1)"
      by (simp flip: pow2_add)
    also have "\<dots> \<le> pow2 (bp - bq + 1) * of_int q"
      using qr(1) pow2_pos [of "bp - bq + 1"] by simp
    finally show ?thesis using qpos by simp
  qed
  have lo: "pow2 (bp - bq - 1) < x"
  proof -
    have "pow2 (bp - bq - 1) * of_int q < pow2 (bp - bq - 1) * pow2 bq"
      using qr(2) pow2_pos [of "bp - bq - 1"] by simp
    also have "\<dots> = pow2 (bp - 1)" by (simp flip: pow2_add)
    also have "\<dots> \<le> x * of_int q" using pr(1) qpos unfolding x by simp
    finally show ?thesis using qpos by simp
  qed
  have one: "pow2 1 = 2" by (simp add: pow2_def)
  have two: "\<And>k. pow2 (k + 1) = 2 * pow2 k" by (simp add: pow2_add one)
  have il: "ilog2 x = (if pow2 (bp - bq) \<le> x then bp - bq else bp - bq - 1)"
    by (simp add: ilog2_def pq bp_def bq_def Let_def)
  show ?thesis
  proof (cases "pow2 (bp - bq) \<le> x")
    case True
    then show ?thesis using up two [of "bp - bq"] by (simp add: il)
  next
    case False
    then show ?thesis using lo two [of "bp - bq - 1"] by (simp add: il)
  qed
qed

lemma round_half_even_error: "\<bar>of_int (round_half_even x) - x\<bar> \<le> 1 / 2"
proof -
  define f where "f = \<lfloor>x\<rfloor>"
  define d where "d = x - of_int f"
  have d: "0 \<le> d" "d < 1" unfolding d_def f_def by linarith+
  have x: "x = of_int f + d" by (simp add: d_def)
  have r: "round_half_even x =
      (if d < 1 / 2 then f else if 1 / 2 < d then f + 1 else if even f then f else f + 1)"
    unfolding round_half_even_def Let_def f_def d_def by (rule refl)
  have lo: "of_int f - x = - d" and hi: "of_int (f + 1) - x = 1 - d" by (simp_all add: d_def)
  consider "d < 1 / 2" | "1 / 2 < d" | "d = 1 / 2" by linarith
  then show ?thesis
  proof cases
    case 1
    then have "round_half_even x = f" by (simp add: r)
    then show ?thesis using d 1 lo by simp
  next
    case 2
    then have "round_half_even x = f + 1" by (simp add: r)
    then show ?thesis using d 2 hi by simp
  next
    case 3
    then have "round_half_even x = f \<or> round_half_even x = f + 1" by (simp add: r)
    then show ?thesis using 3 lo hi by auto
  qed
qed

lemma round_half_even_ge: "of_int n \<le> x \<Longrightarrow> n \<le> round_half_even x"
proof -
  assume "of_int n \<le> x"
  then have "n \<le> \<lfloor>x\<rfloor>" by (simp add: le_floor_iff)
  then show ?thesis by (auto simp add: round_half_even_def Let_def)
qed

lemma fl64_pos_eq:
  "0 < x \<Longrightarrow> fl64 x = of_int (round_half_even (x / pow2 (ilog2 x - 52))) * pow2 (ilog2 x - 52)"
  by (simp add: fl64_def Let_def)

lemma fl64_zero: "fl64 0 = 0"
  by (simp add: fl64_def)

lemma fl64_bounds:
  assumes "0 < x"
  shows "0 < fl64 x \<and> x / (1 + unit_roundoff) \<le> fl64 x \<and> fl64 x \<le> x * (1 + unit_roundoff)"
proof -
  define s where "s = pow2 (ilog2 x - 52)"
  define y where "y = x / s"
  define m where "m = round_half_even y"
  have s: "0 < s" by (simp add: s_def pow2_pos)
  have f: "fl64 x = of_int m * s"
    using assms by (simp add: fl64_pos_eq m_def y_def s_def)
  have x: "x = y * s" using s by (simp add: y_def)
  have "pow2 (ilog2 x) = pow2 (ilog2 x - 52) * pow2 52"
    by (simp flip: pow2_add)
  also have "pow2 52 = 2 ^ 52" by (simp add: pow2_nat)
  finally have "s * 2 ^ 52 \<le> x"
    using ilog2_bounds [OF assms] by (simp add: s_def)
  then have y52: "2 ^ 52 \<le> y" using s by (simp add: x)
  have "of_int (2 ^ 52) \<le> y" using y52 by simp
  then have "2 ^ 52 \<le> m" unfolding m_def by (rule round_half_even_ge)
  then have "(of_int (2 ^ 52) :: rat) \<le> of_int m" by (simp only: of_int_le_iff)
  then have m52: "(2 ^ 52 :: rat) \<le> of_int m" by simp
  have err: "\<bar>of_int m - y\<bar> \<le> 1 / 2" unfolding m_def by (rule round_half_even_error)
  have d: "\<bar>fl64 x - x\<bar> \<le> s / 2"
  proof -
    have "of_int m * s - y * s = (of_int m - y) * s" by (simp add: algebra_simps)
    then have "fl64 x - x = (of_int m - y) * s" using f x by simp
    then have "\<bar>fl64 x - x\<bar> = \<bar>of_int m - y\<bar> * s" using s by (simp add: abs_mult)
    also have "\<dots> \<le> (1 / 2) * s" using err s by (intro mult_right_mono) simp_all
    finally show ?thesis by simp
  qed
  have sx: "s / 2 \<le> x * unit_roundoff"
  proof -
    have "s * 2 ^ 52 \<le> y * s" using y52 s by simp
    then show ?thesis unfolding x unit_roundoff_def by simp
  qed
  have sf: "s / 2 \<le> fl64 x * unit_roundoff"
  proof -
    have "s * 2 ^ 52 \<le> of_int m * s" using m52 s by simp
    then show ?thesis unfolding f unit_roundoff_def by simp
  qed
  have pos: "0 < fl64 x"
  proof -
    have "(0::rat) < of_int m" using m52 by (rule less_le_trans [rotated]) simp
    then show ?thesis using s by (simp add: f)
  qed
  have up: "fl64 x \<le> x * (1 + unit_roundoff)"
  proof -
    have "fl64 x - x \<le> s / 2" using d by linarith
    then have "fl64 x \<le> x + x * unit_roundoff" using sx by linarith
    then show ?thesis by (simp add: algebra_simps)
  qed
  have "x \<le> fl64 x * (1 + unit_roundoff)"
  proof -
    have "x - fl64 x \<le> s / 2" using d by linarith
    then have "x \<le> fl64 x + fl64 x * unit_roundoff" using sf by linarith
    then show ?thesis by (simp add: algebra_simps)
  qed
  moreover have "(0::rat) < 1 + unit_roundoff" by (simp add: unit_roundoff_def)
  ultimately have lo: "x / (1 + unit_roundoff) \<le> fl64 x"
    by (simp add: pos_divide_le_eq)
  show ?thesis using pos lo up by simp
qed

lemma rho_ge1: "1 \<le> (1 + unit_roundoff) ^ n"
  by (rule one_le_power) (simp add: unit_roundoff_def)

lemma rho_pos: "0 < (1 + unit_roundoff) ^ n"
  using rho_ge1 [of n] by linarith

lemma rho_add: "(1 + unit_roundoff) ^ (n + m) = (1 + unit_roundoff) ^ n * (1 + unit_roundoff) ^ m"
  by (rule power_add)

lemma rho_mono: "n \<le> m \<Longrightarrow> (1 + unit_roundoff) ^ n \<le> (1 + unit_roundoff) ^ m"
  by (rule power_increasing) (simp_all add: unit_roundoff_def)

lemma rel_within_nonneg: "rel_within n x y \<Longrightarrow> 0 \<le> y \<Longrightarrow> 0 \<le> x"
proof -
  assume a: "rel_within n x y" "0 \<le> y"
  have "0 \<le> y / (1 + unit_roundoff) ^ n" using a(2) rho_pos [of n] by simp
  then show ?thesis using a(1) by (simp add: rel_within_def)
qed

lemma rel_within_pos: "rel_within n x y \<Longrightarrow> 0 < y \<Longrightarrow> 0 < x"
proof -
  assume a: "rel_within n x y" "0 < y"
  have "0 < y / (1 + unit_roundoff) ^ n" using a(2) rho_pos [of n] by simp
  then show ?thesis using a(1) by (simp add: rel_within_def)
qed

lemma rel_within_mono:
  assumes "rel_within n x y" and "n \<le> m" and "0 \<le> y"
  shows "rel_within m x y"
proof -
  define r where "r = (1 + unit_roundoff) ^ n"
  define s where "s = (1 + unit_roundoff) ^ m"
  have r: "0 < r" and s: "0 < s" and rs: "r \<le> s"
    using rho_pos rho_mono [OF assms(2)] by (simp_all add: r_def s_def)
  have a: "y / r \<le> x" "x \<le> y * r" using assms(1) by (simp_all add: rel_within_def r_def)
  have "y / s \<le> y / r" by (rule frac_le) (use rs r assms(3) in simp_all)
  moreover have "y * r \<le> y * s" by (rule mult_left_mono [OF rs assms(3)])
  ultimately show ?thesis using a by (simp add: rel_within_def s_def)
qed

lemma rel_within_fl64: "0 \<le> x \<Longrightarrow> rel_within 1 (fl64 x) x"
proof (cases "x = 0")
  case True
  then show ?thesis by (simp add: rel_within_def fl64_zero)
next
  case False
  assume "0 \<le> x"
  with False have "0 < x" by simp
  then show ?thesis using fl64_bounds [of x] by (simp add: rel_within_def)
qed

lemma rel_within_trans:
  assumes "rel_within n x y" and "rel_within m z x"
  shows "rel_within (n + m) z y"
proof -
  define r where "r = (1 + unit_roundoff) ^ n"
  define s where "s = (1 + unit_roundoff) ^ m"
  have r: "0 < r" and s: "0 < s" using rho_pos by (simp_all add: r_def s_def)
  have a: "y / r \<le> x" "x \<le> y * r" using assms(1) by (simp_all add: rel_within_def r_def)
  have b: "x / s \<le> z" "z \<le> x * s" using assms(2) by (simp_all add: rel_within_def s_def)
  have "y / r / s \<le> x / s" by (rule divide_right_mono [OF a(1)]) (use s in simp)
  then have lo: "y / (r * s) \<le> z" using b(1) by simp
  have "x * s \<le> y * r * s" by (rule mult_right_mono [OF a(2)]) (use s in simp)
  then have hi: "z \<le> y * (r * s)" using b(2) by (simp add: mult.assoc)
  show ?thesis using lo hi by (simp add: rel_within_def rho_add r_def s_def)
qed

lemma rel_within_round:
  "rel_within n x y \<Longrightarrow> 0 \<le> y \<Longrightarrow> rel_within (Suc n) (fl64 x) y"
  using rel_within_trans [of n x y 1 "fl64 x"] rel_within_fl64 [of x] rel_within_nonneg [of n x y]
  by simp

lemma rel_within_add:
  assumes "rel_within n a b" and "rel_within n c d"
  shows "rel_within n (a + c) (b + d)"
  using assms by (simp add: rel_within_def add_divide_distrib distrib_right add_mono)

lemma rel_within_mult:
  assumes "rel_within n a b" and "rel_within m c d" and "0 \<le> b" and "0 \<le> d"
  shows "rel_within (n + m) (a * c) (b * d)"
proof -
  define r where "r = (1 + unit_roundoff) ^ n"
  define s where "s = (1 + unit_roundoff) ^ m"
  have r: "0 < r" and s: "0 < s" using rho_pos by (simp_all add: r_def s_def)
  have a: "b / r \<le> a" "a \<le> b * r" using assms(1) by (simp_all add: rel_within_def r_def)
  have c: "d / s \<le> c" "c \<le> d * s" using assms(2) by (simp_all add: rel_within_def s_def)
  have a0: "0 \<le> a" and c0: "0 \<le> c"
    using rel_within_nonneg assms by blast+
  have br: "0 \<le> b / r" and ds: "0 \<le> d / s" using assms(3,4) r s by simp_all
  have "(b / r) * (d / s) \<le> a * c" using a(1) c(1) br ds by (rule mult_mono') 
  then have lo: "(b * d) / (r * s) \<le> a * c" by simp
  have "a * c \<le> (b * r) * (d * s)" using a(2) c(2) a0 c0 by (rule mult_mono')
  then have hi: "a * c \<le> (b * d) * (r * s)" by (simp add: mult_ac)
  show ?thesis using lo hi by (simp add: rel_within_def rho_add r_def s_def)
qed

lemma rel_within_inverse:
  assumes "rel_within m c d" and "0 < d"
  shows "rel_within m (1 / c) (1 / d)"
proof -
  define s where "s = (1 + unit_roundoff) ^ m"
  have s: "0 < s" using rho_pos by (simp add: s_def)
  have c: "d / s \<le> c" "c \<le> d * s" using assms(1) by (simp_all add: rel_within_def s_def)
  have c0: "0 < c" using rel_within_pos assms by blast
  have ds: "0 < d / s" using assms(2) s by simp
  have "1 / c \<le> 1 / (d / s)" by (rule frac_le) (use c(1) ds in simp_all)
  then have hi: "1 / c \<le> (1 / d) * s" by simp
  have "1 / (d * s) \<le> 1 / c" by (rule frac_le) (use c(2) c0 in simp_all)
  then have lo: "(1 / d) / s \<le> 1 / c" by simp
  show ?thesis using lo hi by (simp add: rel_within_def s_def)
qed

lemma rel_within_divide:
  assumes "rel_within n a b" and "rel_within m c d" and "0 \<le> b" and "0 < d"
  shows "rel_within (n + m) (a / c) (b / d)"
  using rel_within_mult [OF assms(1) rel_within_inverse [OF assms(2,4)] assms(3)] assms(4)
  by simp

lemma rel_within_of_int: "0 \<le> i \<Longrightarrow> rel_within 1 (fl64 (of_int i)) (of_int i)"
  by (rule rel_within_fl64) simp

lemma fl64_of_int_pos: "0 < i \<Longrightarrow> 0 < fl64 (of_int i)"
  using fl64_bounds [of "of_int i"] by simp

lemma new_average_first:
  assumes "1 \<le> r"
  shows "\<exists>v. new_average a 0 r = Inr v \<and> rel_within 5 v (of_int r)"
proof -
  have r0: "(0::rat) \<le> of_int r" using assms by simp
  show ?thesis
  proof (cases "or_0 a")
    case (PyInt i)
    then have i: "i = 0" by (auto simp: or_0_def split: option.splits if_splits)
    have "rel_within 1 (fl64 (of_int r)) (of_int r)" by (rule rel_within_fl64 [OF r0])
    then have "rel_within 5 (fl64 (of_int r)) (of_int r)"
      by (rule rel_within_mono) (use r0 in simp_all)
    then show ?thesis by (simp add: new_average_def PyInt i)
  next
    case (PyFloat v)
    define t where "t = fl64 (0 + fl64 (of_int r))"
    define d where "d = fl64 (of_int (1::int))"
    have w1: "rel_within 1 (fl64 (of_int r)) (of_int r)" by (rule rel_within_fl64 [OF r0])
    then have "rel_within 1 (0 + fl64 (of_int r)) (of_int r)" by simp
    then have "rel_within (Suc 1) t (of_int r)"
      unfolding t_def by (rule rel_within_round [OF _ r0])
    then have w2: "rel_within 2 t (of_int r)" by (simp add: eval_nat_numeral)
    have d1: "rel_within 1 d 1" unfolding d_def using rel_within_of_int [of 1] by simp
    have dpos: "0 < d" unfolding d_def by (rule fl64_of_int_pos) simp
    have "rel_within (2 + 1) (t / d) (of_int r / 1)"
      by (rule rel_within_divide [OF w2 d1 r0]) simp
    then have "rel_within 3 (t / d) (of_int r)" by (simp add: eval_nat_numeral)
    then have "rel_within (Suc 3) (fl64 (t / d)) (of_int r)"
      by (rule rel_within_round [OF _ r0])
    then have "rel_within 5 (fl64 (t / d)) (of_int r)"
      by (rule rel_within_mono) (use r0 in \<open>simp_all add: eval_nat_numeral\<close>)
    moreover have "new_average a 0 r = Inr (fl64 (t / d))"
      using dpos by (simp add: new_average_def PyFloat fl64_zero t_def d_def)
    ultimately show ?thesis by simp
  qed
qed

lemma new_average_next:
  assumes "1 \<le> c" and "0 < S" and "rel_within n v (S / of_int c)" and "1 \<le> r"
  shows "\<exists>v'. new_average (Some v) c r = Inr v'
           \<and> rel_within (n + 5) v' ((S + of_int r) / of_int (c + 1))"
proof -
  have c0: "(0::rat) < of_int c" and r0: "(0::rat) \<le> of_int r" and S0: "0 \<le> S"
    using assms by simp_all
  have Sc: "0 < S / of_int c" using assms(2) c0 by simp
  have v: "0 < v" by (rule rel_within_pos [OF assms(3) Sc])
  define fc where "fc = fl64 (of_int c)"
  define t where "t = fl64 (v * fc)"
  define s where "s = fl64 (t + fl64 (of_int r))"
  define d where "d = fl64 (of_int (c + 1))"
  have wc: "rel_within 1 fc (of_int c)"
    unfolding fc_def by (rule rel_within_of_int) (use assms(1) in simp)
  have "rel_within (n + 1) (v * fc) (S / of_int c * of_int c)"
    by (rule rel_within_mult [OF assms(3) wc]) (use Sc c0 in simp_all)
  then have "rel_within (n + 1) (v * fc) S" using c0 by simp
  then have "rel_within (Suc (n + 1)) t S" unfolding t_def by (rule rel_within_round [OF _ S0])
  then have wt: "rel_within (n + 2) t S" by (simp add: eval_nat_numeral)
  have "rel_within 1 (fl64 (of_int r)) (of_int r)" by (rule rel_within_fl64 [OF r0])
  then have wr: "rel_within (n + 2) (fl64 (of_int r)) (of_int r)"
    by (rule rel_within_mono) (use r0 in simp_all)
  have Sr: "0 \<le> S + of_int r" using S0 r0 by simp
  have "rel_within (n + 2) (t + fl64 (of_int r)) (S + of_int r)"
    by (rule rel_within_add [OF wt wr])
  then have "rel_within (Suc (n + 2)) s (S + of_int r)"
    unfolding s_def by (rule rel_within_round [OF _ Sr])
  then have ws: "rel_within (n + 3) s (S + of_int r)" by (simp add: eval_nat_numeral)
  have c1: "(0::rat) < of_int (c + 1)" using assms(1) by simp
  have wd: "rel_within 1 d (of_int (c + 1))"
    unfolding d_def by (rule rel_within_of_int) (use assms(1) in simp)
  have dpos: "0 < d" unfolding d_def by (rule fl64_of_int_pos) (use assms(1) in simp)
  have q0: "0 \<le> (S + of_int r) / of_int (c + 1)" using Sr c1 by simp
  have "rel_within (n + 3 + 1) (s / d) ((S + of_int r) / of_int (c + 1))"
    by (rule rel_within_divide [OF ws wd Sr c1])
  then have "rel_within (Suc (n + 3 + 1)) (fl64 (s / d)) ((S + of_int r) / of_int (c + 1))"
    by (rule rel_within_round [OF _ q0])
  then have "rel_within (n + 5) (fl64 (s / d)) ((S + of_int r) / of_int (c + 1))"
    by (simp add: eval_nat_numeral)
  moreover have "new_average (Some v) c r = Inr (fl64 (s / d))"
    using v dpos by (simp add: new_average_def or_0_def s_def t_def fc_def d_def)
  ultimately show ?thesis by simp
qed

lemma running_average_bound:
  assumes "1 \<le> c" and "c \<le> S"
    and "rel_within (5 * nat c) v (of_int S / of_int c)"
    and "\<forall>r\<in>set rs. 1 \<le> r"
  shows "\<exists>v'. running_average (Some v) c rs = Inr (Some v')
           \<and> rel_within (5 * nat (c + int (length rs))) v'
                (of_int (S + sum_list rs) / of_int (c + int (length rs)))"
  using assms
proof (induction rs arbitrary: v c S)
  case Nil
  then show ?case by simp
next
  case (Cons r rs)
  have r: "1 \<le> r" and rs: "\<forall>r\<in>set rs. 1 \<le> r" using Cons.prems(4) by simp_all
  have S: "(0::rat) < of_int S" using Cons.prems(1,2) by simp
  obtain v1 where v1: "new_average (Some v) c r = Inr v1"
    and w1: "rel_within (5 * nat c + 5) v1 ((of_int S + of_int r) / of_int (c + 1))"
    using new_average_next [OF Cons.prems(1) S Cons.prems(3) r] by blast
  have n: "5 * nat c + 5 = 5 * nat (c + 1)" using Cons.prems(1) by (simp add: nat_add_distrib)
  have w1': "rel_within (5 * nat (c + 1)) v1 (of_int (S + r) / of_int (c + 1))"
    using w1 unfolding n by simp
  have c1: "1 \<le> c + 1" and cS: "c + 1 \<le> S + r" using Cons.prems(1,2) r by simp_all
  obtain v' where v': "running_average (Some v1) (c + 1) rs = Inr (Some v')"
    and w': "rel_within (5 * nat (c + 1 + int (length rs))) v'
                (of_int (S + r + sum_list rs) / of_int (c + 1 + int (length rs)))"
    using Cons.IH [OF c1 cS w1' rs] by blast
  have "running_average (Some v) c (r # rs) = Inr (Some v')" by (simp add: v1 v')
  moreover have "rel_within (5 * nat (c + int (length (r # rs)))) v'
                (of_int (S + sum_list (r # rs)) / of_int (c + int (length (r # rs))))"
    using w' by (simp add: add.assoc add.commute add.left_commute)
  ultimately show ?case by blast
qed

lemma running_average_mean:
  assumes "rs \<noteq> []" and "\<forall>r\<in>set rs. 1 \<le> r"
  shows "\<exists>v. running_average a 0 rs = Inr (Some v) \<and> rel_within (5 * length rs) v (mean rs)"
proof -
  obtain r rs' where rs: "rs = r # rs'" using assms(1) by (cases rs) auto
  have r: "1 \<le> r" and rs': "\<forall>r\<in>set rs'. 1 \<le> r" using assms(2) by (simp_all add: rs)
  obtain v1 where v1: "new_average a 0 r = Inr v1" and w1: "rel_within 5 v1 (of_int r)"
    using new_average_first [OF r] by blast
  have w1': "rel_within (5 * nat 1) v1 (of_int r / of_int 1)" using w1 by simp
  obtain v where v: "running_average (Some v1) 1 rs' = Inr (Some v)"
    and w: "rel_within (5 * nat (1 + int (length rs'))) v
              (of_int (r + sum_list rs') / of_int (1 + int (length rs')))"
    using running_average_bound [OF _ r w1' rs'] by auto
  have "running_average a 0 rs = Inr (Some v)" by (simp add: rs v1 v)
  moreover have "rel_within (5 * length rs) v (mean rs)"
    using w by (simp add: rs mean_def nat_add_distrib add.commute)
  ultimately show ?thesis by blast
qed


lemma fl64_minus: "fl64 (- x) = - fl64 x"
  by (simp add: fl64_def Let_def)

lemma unit_roundoff_pos: "0 < unit_roundoff" "unit_roundoff < 1"
  by (simp_all add: unit_roundoff_def)

lemma fl64_abs_err: "\<bar>fl64 x - x\<bar> \<le> unit_roundoff * \<bar>x\<bar>"
proof -
  have pos: "\<bar>fl64 y - y\<bar> \<le> unit_roundoff * y" if "0 < y" for y
  proof -
    define u where "u = unit_roundoff"
    have u: "0 < u" by (simp add: u_def unit_roundoff_pos)
    have b: "y / (1 + u) \<le> fl64 y" "fl64 y \<le> y * (1 + u)"
      using fl64_bounds [OF that] by (simp_all add: u_def)
    have "y - u * y \<le> y / (1 + u)"
    proof -
      have "(y - u * y) * (1 + u) = y - y * u * u" by (simp add: algebra_simps)
      also have "\<dots> \<le> y" using that u by simp
      finally show ?thesis using u by (simp add: pos_le_divide_eq)
    qed
    then have lo: "y - u * y \<le> fl64 y" using b(1) by linarith
    have hi: "fl64 y \<le> y + u * y" using b(2) by (simp add: algebra_simps)
    show ?thesis using lo hi unfolding u_def [symmetric] by linarith
  qed
  consider "x = 0" | "0 < x" | "x < 0" by linarith
  then show ?thesis
  proof cases
    case 1
    then show ?thesis by (simp add: fl64_zero)
  next
    case 2
    then show ?thesis using pos [of x] by simp
  next
    case 3
    then have "\<bar>fl64 (- x) - (- x)\<bar> \<le> unit_roundoff * (- x)" using pos [of "- x"] by simp
    then show ?thesis using 3 by (simp add: fl64_minus abs_minus_commute)
  qed
qed


lemma abs_within_exact: "abs_within 0 M x x"
  by (simp add: abs_within_def)

lemma abs_within_fl64: "abs_within 1 \<bar>x\<bar> (fl64 x) x"
  using fl64_abs_err [of x] by (simp add: abs_within_def)

lemma abs_within_mono:
  assumes "abs_within n M x y" and "n \<le> m" and "0 \<le> M"
  shows "abs_within m M x y"
proof -
  have "(1 + unit_roundoff) ^ n - 1 \<le> (1 + unit_roundoff) ^ m - 1"
    using rho_mono [OF assms(2)] by simp
  then have "((1 + unit_roundoff) ^ n - 1) * M \<le> ((1 + unit_roundoff) ^ m - 1) * M"
    by (rule mult_right_mono [OF _ assms(3)])
  then show ?thesis using assms(1) by (simp add: abs_within_def)
qed

lemma abs_within_add:
  assumes "abs_within n M1 x1 y1" and "abs_within n M2 x2 y2"
  shows "abs_within n (M1 + M2) (x1 + x2) (y1 + y2)"
proof -
  define g where "g = (1 + unit_roundoff) ^ n - 1"
  have a: "\<bar>x1 - y1\<bar> \<le> g * M1" "\<bar>x2 - y2\<bar> \<le> g * M2"
    using assms by (simp_all add: abs_within_def g_def)
  have "\<bar>(x1 + x2) - (y1 + y2)\<bar> \<le> \<bar>x1 - y1\<bar> + \<bar>x2 - y2\<bar>" by linarith
  also have "\<dots> \<le> g * M1 + g * M2" using a by linarith
  also have "\<dots> = g * (M1 + M2)" by (simp add: algebra_simps)
  finally show ?thesis by (simp add: abs_within_def g_def)
qed

lemma abs_within_round:
  assumes "abs_within n M x y" and "\<bar>y\<bar> \<le> M"
  shows "abs_within (Suc n) M (fl64 x) y"
proof -
  define u where "u = unit_roundoff"
  define r where "r = (1 + u) ^ n"
  have u: "0 < u" by (simp add: u_def unit_roundoff_pos)
  have r1: "1 \<le> r" using rho_ge1 [of n] by (simp add: r_def u_def)
  have a: "\<bar>x - y\<bar> \<le> (r - 1) * M" using assms(1) by (simp add: abs_within_def r_def u_def)
  have M: "0 \<le> M" using assms(2) by linarith
  have "\<bar>x\<bar> \<le> \<bar>y\<bar> + \<bar>x - y\<bar>" by linarith
  also have "\<dots> \<le> M + (r - 1) * M" using assms(2) a by linarith
  also have "\<dots> = r * M" by (simp add: algebra_simps)
  finally have x: "\<bar>x\<bar> \<le> r * M" .
  have "u * \<bar>x\<bar> \<le> u * (r * M)" using x u by (simp add: mult_left_mono)
  then have e: "\<bar>fl64 x - x\<bar> \<le> u * (r * M)"
    using fl64_abs_err [of x] unfolding u_def by linarith
  have "\<bar>fl64 x - y\<bar> \<le> \<bar>fl64 x - x\<bar> + \<bar>x - y\<bar>" by linarith
  also have "\<dots> \<le> u * (r * M) + (r - 1) * M" using e a by linarith
  also have "\<dots> = ((1 + u) * r - 1) * M" by (simp add: algebra_simps)
  finally show ?thesis by (simp add: abs_within_def r_def u_def mult.commute)
qed

lemma abs_within_mult:
  assumes "abs_within n M x y" and "\<bar>y\<bar> \<le> M" and "abs_within m \<bar>c\<bar> c' c"
  shows "abs_within (n + m) (M * \<bar>c\<bar>) (x * c') (y * c)"
proof -
  define r where "r = (1 + unit_roundoff) ^ n"
  define s where "s = (1 + unit_roundoff) ^ m"
  have r1: "1 \<le> r" and s1: "1 \<le> s" using rho_ge1 by (simp_all add: r_def s_def)
  have a: "\<bar>x - y\<bar> \<le> (r - 1) * M" using assms(1) by (simp add: abs_within_def r_def)
  have c: "\<bar>c' - c\<bar> \<le> (s - 1) * \<bar>c\<bar>" using assms(3) by (simp add: abs_within_def s_def)
  have M: "0 \<le> M" using assms(2) by linarith
  have "\<bar>c'\<bar> \<le> \<bar>c\<bar> + \<bar>c' - c\<bar>" by linarith
  also have "\<dots> \<le> \<bar>c\<bar> + (s - 1) * \<bar>c\<bar>" using c by linarith
  also have "\<dots> = s * \<bar>c\<bar>" by (simp add: algebra_simps)
  finally have c': "\<bar>c'\<bar> \<le> s * \<bar>c\<bar>" .
  have rM: "0 \<le> (r - 1) * M" using r1 M by simp
  have t1: "\<bar>x - y\<bar> * \<bar>c'\<bar> \<le> ((r - 1) * M) * (s * \<bar>c\<bar>)"
    by (rule mult_mono [OF a c' rM]) simp
  have sc: "0 \<le> (s - 1) * \<bar>c\<bar>" using s1 by simp
  have t2: "\<bar>y\<bar> * \<bar>c' - c\<bar> \<le> M * ((s - 1) * \<bar>c\<bar>)"
    by (rule mult_mono [OF assms(2) c M]) simp
  have "x * c' - y * c = (x - y) * c' + y * (c' - c)" by (simp add: algebra_simps)
  then have "\<bar>x * c' - y * c\<bar> \<le> \<bar>(x - y) * c'\<bar> + \<bar>y * (c' - c)\<bar>" by linarith
  also have "\<dots> = \<bar>x - y\<bar> * \<bar>c'\<bar> + \<bar>y\<bar> * \<bar>c' - c\<bar>" by (simp add: abs_mult)
  also have "\<dots> \<le> ((r - 1) * M) * (s * \<bar>c\<bar>) + M * ((s - 1) * \<bar>c\<bar>)" using t1 t2 by linarith
  also have "\<dots> = (r * s - 1) * (M * \<bar>c\<bar>)" by (simp add: algebra_simps)
  finally show ?thesis by (simp add: abs_within_def rho_add r_def s_def)
qed

lemma abs_within_inverse:
  assumes "0 < c"
  shows "abs_within 1 (1 / c) (1 / fl64 c) (1 / c)"
proof -
  define u where "u = unit_roundoff"
  define f where "f = fl64 c"
  have u: "0 < u" by (simp add: u_def unit_roundoff_pos)
  have b: "0 < f" "c / (1 + u) \<le> f" "f \<le> c * (1 + u)"
    using fl64_bounds [OF assms] by (simp_all add: u_def f_def)
  have "1 / f \<le> 1 / (c / (1 + u))"
    by (rule frac_le) (use b assms u in simp_all)
  then have hi: "1 / f \<le> (1 + u) / c" by simp
  have "1 / (c * (1 + u)) \<le> 1 / f"
    by (rule frac_le) (use b in simp_all)
  moreover have "(1 - u) / c \<le> 1 / (c * (1 + u))"
  proof -
    have "(1 - u) * (1 + u) \<le> 1" using u by (simp add: algebra_simps)
    then have "1 - u \<le> 1 / (1 + u)" using u by (simp add: pos_le_divide_eq)
    then have "(1 - u) / c \<le> (1 / (1 + u)) / c"
      by (rule divide_right_mono) (use assms in simp)
    moreover have "(1 / (1 + u)) / c = 1 / (c * (1 + u))" by (simp add: mult.commute)
    ultimately show ?thesis by (simp add: mult.commute)
  qed
  ultimately have lo: "(1 - u) / c \<le> 1 / f" by linarith
  have e1: "(1 + u) / c = 1 / c + u / c" by (simp add: add_divide_distrib)
  have e2: "(1 - u) / c = 1 / c - u / c" by (simp add: diff_divide_distrib)
  have hi': "1 / f \<le> 1 / c + u / c" using hi unfolding e1 .
  have lo': "1 / c - u / c \<le> 1 / f" using lo unfolding e2 .
  have "\<bar>1 / f - 1 / c\<bar> \<le> u / c" using lo' hi' by linarith
  then show ?thesis by (simp add: abs_within_def u_def f_def)
qed


section \<open>Rows, commits and the examples\<close>

lemma get_by_id_ident: "get_by_id tbl i = Some r \<Longrightarrow> ident r = i"
  by (auto simp: get_by_id_def find_Some_iff)

lemma get_by_id_replace:
  "get_by_id tbl i = Some r \<Longrightarrow> ident row = i
     \<Longrightarrow> get_by_id (map (\<lambda>x. if ident x = i then row else x) tbl) i = Some row"
  by (induction tbl) (auto simp: get_by_id_def)

lemma replace_replace:
  "ident row = i \<Longrightarrow>
     map (\<lambda>x. if ident x = i then row' else x) (map (\<lambda>x. if ident x = i then row else x) tbl)
       = map (\<lambda>x. if ident x = i then row' else x) tbl"
  by (induction tbl) auto

lemma commit_delete:
  "deleted_at r = None \<Longrightarrow>
   commit_refresh t r (r\<lparr>deleted_at := Some t\<rparr>) tbl =
     (map (\<lambda>x. if ident x = ident r then r\<lparr>deleted_at := Some t, updated_at := t\<rparr> else x) tbl,
      r\<lparr>deleted_at := Some t, updated_at := t\<rparr>)"
proof -
  assume a: "deleted_at r = None"
  have "deleted_at (r\<lparr>deleted_at := Some t\<rparr>) \<noteq> deleted_at r" using a by simp
  then have "r\<lparr>deleted_at := Some t\<rparr> \<noteq> r" by metis
  then show ?thesis by (simp add: commit_refresh_def Let_def)
qed

lemma commit_restore:
  "deleted_at r \<noteq> None \<Longrightarrow>
   commit_refresh t r (r\<lparr>deleted_at := None\<rparr>) tbl =
     (map (\<lambda>x. if ident x = ident r then r\<lparr>deleted_at := None, updated_at := t\<rparr> else x) tbl,
      r\<lparr>deleted_at := None, updated_at := t\<rparr>)"
proof -
  assume a: "deleted_at r \<noteq> None"
  have "deleted_at (r\<lparr>deleted_at := None\<rparr>) \<noteq> deleted_at r" using a by auto
  then have "r\<lparr>deleted_at := None\<rparr> \<noteq> r" by metis
  then show ?thesis by (simp add: commit_refresh_def Let_def)
qed

lemma undelete_eq:
  "deleted_at r = None \<Longrightarrow>
     r\<lparr>deleted_at := Some t1, updated_at := t1\<rparr>\<lparr>deleted_at := None, updated_at := t2\<rparr> = r\<lparr>updated_at := t2\<rparr>"
  by simp

text \<open>
  Deleting an active city, flight or post and then restoring it (a post by its author)
  gives back the row with every field as before except \<^verbatim>\<open>updated_at\<close>, which holds the time
  of the restore; the database differs from the first one in that row only.
\<close>

lemma delete_restore_city:
  assumes "get_by_id (cities db) (ident c) = Some c" and "deleted_at c = None"
  shows "restore_city (fst (delete_city db c t1)) (ident c) t2 =
           (db\<lparr>cities := map (\<lambda>r. if ident r = ident c then c\<lparr>updated_at := t2\<rparr> else r) (cities db)\<rparr>,
            Some (c\<lparr>updated_at := t2\<rparr>))"
proof -
  define c1 where "c1 = c\<lparr>deleted_at := Some t1, updated_at := t1\<rparr>"
  define tbl1 where "tbl1 = map (\<lambda>r. if ident r = ident c then c1 else r) (cities db)"
  have i1: "ident c1 = ident c" and d1: "deleted_at c1 \<noteq> None" by (simp_all add: c1_def)
  have d: "delete_city db c t1 = (db\<lparr>cities := tbl1\<rparr>, c1)"
    using assms(2) by (simp add: delete_city_def commit_delete c1_def tbl1_def)
  have g: "get_by_id tbl1 (ident c) = Some c1"
    unfolding tbl1_def by (rule get_by_id_replace [OF assms(1) i1])
  have u: "c1\<lparr>deleted_at := None, updated_at := t2\<rparr> = c\<lparr>updated_at := t2\<rparr>"
    unfolding c1_def by (rule undelete_eq [OF assms(2)])
  have r: "restore_city (db\<lparr>cities := tbl1\<rparr>) (ident c) t2 =
          (db\<lparr>cities := map (\<lambda>x. if ident x = ident c then c\<lparr>updated_at := t2\<rparr> else x) tbl1\<rparr>,
           Some (c\<lparr>updated_at := t2\<rparr>))"
    using g d1 by (simp add: restore_city_def commit_restore i1 u)
  have m: "map (\<lambda>x. if ident x = ident c then c\<lparr>updated_at := t2\<rparr> else x) tbl1 =
           map (\<lambda>x. if ident x = ident c then c\<lparr>updated_at := t2\<rparr> else x) (cities db)"
    unfolding tbl1_def by (rule replace_replace [OF i1])
  show ?thesis
    unfolding d fst_conv r m by (rule refl)
qed


lemma delete_restore_flight:
  assumes "get_by_id (flights db) (ident f) = Some f" and "deleted_at f = None"
  shows "restore_flight (fst (soft_delete_flight db f t1)) (ident f) t2 =
           (db\<lparr>flights := map (\<lambda>r. if ident r = ident f then f\<lparr>updated_at := t2\<rparr> else r) (flights db)\<rparr>,
            Some (f\<lparr>updated_at := t2\<rparr>))"
proof -
  define f1 where "f1 = f\<lparr>deleted_at := Some t1, updated_at := t1\<rparr>"
  define tbl1 where "tbl1 = map (\<lambda>r. if ident r = ident f then f1 else r) (flights db)"
  have i1: "ident f1 = ident f" and d1: "deleted_at f1 \<noteq> None" by (simp_all add: f1_def)
  have d: "soft_delete_flight db f t1 = (db\<lparr>flights := tbl1\<rparr>, f1)"
    using assms(2) by (simp add: soft_delete_flight_def commit_delete f1_def tbl1_def)
  have g: "get_by_id tbl1 (ident f) = Some f1"
    unfolding tbl1_def by (rule get_by_id_replace [OF assms(1) i1])
  have u: "f1\<lparr>deleted_at := None, updated_at := t2\<rparr> = f\<lparr>updated_at := t2\<rparr>"
    unfolding f1_def by (rule undelete_eq [OF assms(2)])
  have r: "restore_flight (db\<lparr>flights := tbl1\<rparr>) (ident f) t2 =
          (db\<lparr>flights := map (\<lambda>x. if ident x = ident f then f\<lparr>updated_at := t2\<rparr> else x) tbl1\<rparr>,
           Some (f\<lparr>updated_at := t2\<rparr>))"
    using g d1 by (simp add: restore_flight_def commit_restore i1 u)
  have m: "map (\<lambda>x. if ident x = ident f then f\<lparr>updated_at := t2\<rparr> else x) tbl1 =
           map (\<lambda>x. if ident x = ident f then f\<lparr>updated_at := t2\<rparr> else x) (flights db)"
    unfolding tbl1_def by (rule replace_replace [OF i1])
  show ?thesis
    unfolding d fst_conv r m by (rule refl)
qed

lemma delete_restore_post:
  assumes "get_by_id (posts db) (ident p) = Some p" and "deleted_at p = None"
  shows "(case soft_delete_post db p (post.user_id p) t1 of
            (db1, Inr p1) \<Rightarrow> restore_post db1 (ident p) (post.user_id p) t2
          | (db1, Inl e) \<Rightarrow> (db1, Inl e)) =
           (db\<lparr>posts := map (\<lambda>r. if ident r = ident p then p\<lparr>updated_at := t2\<rparr> else r) (posts db)\<rparr>,
            Inr (Some (p\<lparr>updated_at := t2\<rparr>)))"
proof -
  define p1 where "p1 = p\<lparr>deleted_at := Some t1, updated_at := t1\<rparr>"
  define tbl1 where "tbl1 = map (\<lambda>r. if ident r = ident p then p1 else r) (posts db)"
  have i1: "ident p1 = ident p" and d1: "deleted_at p1 \<noteq> None"
    and a1: "post.user_id p1 = post.user_id p" by (simp_all add: p1_def)
  have d: "soft_delete_post db p (post.user_id p) t1 = (db\<lparr>posts := tbl1\<rparr>, Inr p1)"
    using assms(2) by (simp add: soft_delete_post_def commit_delete p1_def tbl1_def)
  have g: "get_by_id tbl1 (ident p) = Some p1"
    unfolding tbl1_def by (rule get_by_id_replace [OF assms(1) i1])
  have u: "p1\<lparr>deleted_at := None, updated_at := t2\<rparr> = p\<lparr>updated_at := t2\<rparr>"
    unfolding p1_def by (rule undelete_eq [OF assms(2)])
  have r: "restore_post (db\<lparr>posts := tbl1\<rparr>) (ident p) (post.user_id p) t2 =
          (db\<lparr>posts := map (\<lambda>x. if ident x = ident p then p\<lparr>updated_at := t2\<rparr> else x) tbl1\<rparr>,
           Inr (Some (p\<lparr>updated_at := t2\<rparr>)))"
    using g d1 a1 by (simp add: restore_post_def commit_restore i1 u)
  have m: "map (\<lambda>x. if ident x = ident p then p\<lparr>updated_at := t2\<rparr> else x) tbl1 =
           map (\<lambda>x. if ident x = ident p then p\<lparr>updated_at := t2\<rparr> else x) (posts db)"
    unfolding tbl1_def by (rule replace_replace [OF i1])
  show ?thesis
    by (simp add: d r m)
qed




section \<open>Review conflicts and ownership\<close>

text \<open>
  C4. A user who already has a review of a city cannot add another: \<open>add_review_to_city\<close>
  raises the conflict error of this API (status 400, ``You have already reviewed this
  city'') and the database, with the city's \<^verbatim>\<open>average_rating\<close> and \<^verbatim>\<open>review_count\<close> and
  the review rows, is as before.
\<close>

theorem second_review_conflict:
  assumes "find (\<lambda>r. city_id r = ident c \<and> review.user_id r = uid) (reviews db) = Some existing"
  shows "add_review_to_city db c review_in uid new_id now =
           (db, Inl (HTTPException 400 ''You have already reviewed this city''))"
  using assms by (simp add: add_review_to_city_def)

theorem second_review_conflict_witness:
  "find (\<lambda>r. city_id r = ident ex_city \<and> review.user_id r = ''alice'') (reviews ex_db) = Some ex_review
   \<and> add_review_to_city ex_db ex_city \<lparr>ReviewCreate.rating = 2, ReviewCreate.comment = None\<rparr>
        ''alice'' ''r2'' 9 = (ex_db, Inl (HTTPException 400 ''You have already reviewed this city''))"
proof -
  have f: "find (\<lambda>r. city_id r = ident ex_city \<and> review.user_id r = ''alice'') (reviews ex_db)
             = Some ex_review"
    by (simp add: ex_db_def ex_review_def ex_city_def)
  show ?thesis using f second_review_conflict [OF f] by simp
qed

text \<open>
  C5, as the code has it. For an existing review and a user who is not its author,
  \<open>update_review\<close> raises 404 ``Review not found'', the error it raises for a missing
  review, and changes nothing.
\<close>

theorem update_review_non_author_not_found:
  assumes "get_by_id (reviews db) review_id = Some r" and "review.user_id r \<noteq> uid"
  shows "update_review db review_id uid review_in now =
           (db, Inl (HTTPException 404 ''Review not found''))"
  using assms by (simp add: update_review_def)

theorem update_review_non_author_not_found_witness:
  "get_by_id (reviews ex_db) ''r1'' = Some ex_review \<and> review.user_id ex_review \<noteq> ''bob''
   \<and> update_review ex_db ''r1'' ''bob'' \<lparr>ReviewUpdate.rating = Some 1, ReviewUpdate.comment = None\<rparr> 9
       = (ex_db, Inl (HTTPException 404 ''Review not found''))"
proof -
  have g: "get_by_id (reviews ex_db) ''r1'' = Some ex_review"
    by (simp add: get_by_id_def ex_db_def ex_review_def)
  have a: "review.user_id ex_review \<noteq> ''bob''" by (simp add: ex_review_def)
  show ?thesis using g a update_review_non_author_not_found [OF g a] by simp
qed

text \<open>
  C5 as stated asks for 403: \<^verbatim>\<open>bob\<close> updating \<^verbatim>\<open>alice\<close>'s review gets 404.
\<close>

theorem update_review_non_author_counterexample:
  "review.user_id ex_review \<noteq> ''bob''
   \<and> update_review ex_db ''r1'' ''bob'' \<lparr>ReviewUpdate.rating = Some 1, ReviewUpdate.comment = None\<rparr> 9
       = (ex_db, Inl (HTTPException 404 ''Review not found''))"
  by (simp add: update_review_def get_by_id_def ex_db_def ex_review_def)

text \<open>
  C6. A user who is not the author of a post or comment gets 403 from \<open>update_post\<close>,
  \<open>soft_delete_post\<close>, \<open>update_comment\<close> and \<open>soft_delete_comment\<close>, and the database is
  unchanged.
\<close>

theorem non_author_forbidden:
  assumes "post.user_id db_post \<noteq> uid" and "comment.user_id db_comment \<noteq> uid"
  shows "update_post db db_post post_in uid now =
           (db, Inl (HTTPException 403 ''Not authorized to update this post''))
       \<and> soft_delete_post db db_post uid now =
           (db, Inl (HTTPException 403 ''Not authorized to delete this post''))
       \<and> update_comment db db_comment comment_in uid now =
           (db, Inl (HTTPException 403 ''Not authorized to update this comment''))
       \<and> soft_delete_comment db db_comment uid now =
           (db, Inl (HTTPException 403 ''Not authorized to delete this comment''))"
  using assms
  by (simp add: update_post_def soft_delete_post_def update_comment_def soft_delete_comment_def)

theorem non_author_forbidden_witness:
  "post.user_id ex_post \<noteq> ''bob'' \<and> comment.user_id ex_comment \<noteq> ''bob''
   \<and> update_post ex_db ex_post
         \<lparr>PostUpdate.title = Some (Some ''Mine''), PostUpdate.description = None\<rparr> ''bob'' 5 =
           (ex_db, Inl (HTTPException 403 ''Not authorized to update this post''))
   \<and> soft_delete_post ex_db ex_post ''bob'' 5 =
           (ex_db, Inl (HTTPException 403 ''Not authorized to delete this post''))
   \<and> update_comment ex_db ex_comment \<lparr>CommentUpdate.content = Some (Some ''No'')\<rparr> ''bob'' 5 =
           (ex_db, Inl (HTTPException 403 ''Not authorized to update this comment''))
   \<and> soft_delete_comment ex_db ex_comment ''bob'' 5 =
           (ex_db, Inl (HTTPException 403 ''Not authorized to delete this comment''))"
proof -
  have a: "post.user_id ex_post \<noteq> ''bob''" by (simp add: ex_post_def)
  have b: "comment.user_id ex_comment \<noteq> ''bob''" by (simp add: ex_comment_def)
  show ?thesis using a b non_author_forbidden [OF a b] by simp
qed


section \<open>Likes\<close>

lemma find_append:
  "find P (xs @ ys) = (case find P xs of None \<Rightarrow> find P ys | Some x \<Rightarrow> Some x)"
  by (induction xs) auto

lemma find_filter_not: "find P (filter (\<lambda>x. \<not> P x) xs) = None"
  by (induction xs) auto

lemma commit_like_count:
  "n \<noteq> like_count p \<Longrightarrow>
   commit_refresh t p (p\<lparr>like_count := n\<rparr>) tbl =
     (map (\<lambda>x. if ident x = ident p then p\<lparr>like_count := n, updated_at := t\<rparr> else x) tbl,
      p\<lparr>like_count := n, updated_at := t\<rparr>)"
proof -
  assume a: "n \<noteq> like_count p"
  have "like_count (p\<lparr>like_count := n\<rparr>) \<noteq> like_count p" using a by simp
  then have "p\<lparr>like_count := n\<rparr> \<noteq> p" by metis
  then show ?thesis by (simp add: commit_refresh_def Let_def)
qed

lemma toggle_unliked:
  assumes "find (\<lambda>l. like.post_id l = ident p \<and> like.user_id l = uid) (post_likes db) = None"
  shows "toggle_like_post db p uid t =
     (db\<lparr>post_likes := post_likes db @ [\<lparr>created_at = t, updated_at = t, deleted_at = None,
                           like.user_id = uid, like.post_id = ident p\<rparr>],
         posts := map (\<lambda>x. if ident x = ident p then p\<lparr>like_count := like_count p + 1, updated_at := t\<rparr> else x) (posts db)\<rparr>,
      p\<lparr>like_count := like_count p + 1, updated_at := t\<rparr>)"
  using assms by (simp add: toggle_like_post_def commit_like_count Let_def)

lemma toggle_liked:
  assumes "find (\<lambda>l. like.post_id l = ident p \<and> like.user_id l = uid) (post_likes db) = Some l"
    and "1 \<le> like_count p"
  shows "toggle_like_post db p uid t =
     (db\<lparr>post_likes := filter (\<lambda>l. \<not> (like.post_id l = ident p \<and> like.user_id l = uid)) (post_likes db),
         posts := map (\<lambda>x. if ident x = ident p then p\<lparr>like_count := like_count p - 1, updated_at := t\<rparr> else x) (posts db)\<rparr>,
      p\<lparr>like_count := like_count p - 1, updated_at := t\<rparr>)"
proof -
  have k: "like.post_id l = ident p \<and> like.user_id l = uid"
    using assms(1) by (auto simp: find_Some_iff)
  have m: "max 0 (like_count p - 1) = like_count p - 1" using assms(2) by simp
  have f: "(\<lambda>l'. \<not> (like.user_id l' = like.user_id l \<and> like.post_id l' = like.post_id l))
         = (\<lambda>l. \<not> (like.post_id l = ident p \<and> like.user_id l = uid))"
    using k by auto
  have ne: "like_count p - 1 \<noteq> like_count p" by simp
  show ?thesis
    unfolding toggle_like_post_def assms(1) option.case Let_def m f
      commit_like_count [OF ne] prod.case
    by (rule refl)
qed


lemma like_keys_filter:
  assumes "find (\<lambda>l. like.post_id l = pid \<and> like.user_id l = uid) ls = Some l"
  shows "set (map (\<lambda>l. (like.user_id l, like.post_id l))
            (filter (\<lambda>l. \<not> (like.post_id l = pid \<and> like.user_id l = uid)) ls @ [new\<lparr>like.user_id := uid, like.post_id := pid\<rparr>]))
       = set (map (\<lambda>l. (like.user_id l, like.post_id l)) ls)"
proof -
  have "l \<in> set ls" "like.post_id l = pid" "like.user_id l = uid"
    using assms by (auto simp: find_Some_iff)
  then have "(uid, pid) \<in> set (map (\<lambda>l. (like.user_id l, like.post_id l)) ls)"
    by force
  then show ?thesis by auto
qed

text \<open>
  C2, as the code has it. When \<^verbatim>\<open>like_count\<close> is at least 1 if the user's like exists and
  at least 0 if it does not, two toggles in a row by that user give back the post with its
  \<^verbatim>\<open>like_count\<close> and every other field but \<^verbatim>\<open>updated_at\<close> as before, in the object and in
  its row, and the same set of \<^verbatim>\<open>(user_id, post_id)\<close> like keys (a like that existed is
  deleted and inserted anew, with new timestamps).
\<close>

theorem toggle_twice:
  assumes "(case find (\<lambda>l. like.post_id l = ident p \<and> like.user_id l = uid) (post_likes db) of
              None \<Rightarrow> 0 | Some l \<Rightarrow> 1) \<le> like_count p"
  shows "(case toggle_like_post db p uid t1 of
            (db1, p1) \<Rightarrow>
              (case toggle_like_post db1 p1 uid t2 of
                 (db2, p2) \<Rightarrow>
                   like_count p2 = like_count p \<and> p2 = p\<lparr>updated_at := t2\<rparr>
                   \<and> posts db2 = map (\<lambda>x. if ident x = ident p then p2 else x) (posts db)
                   \<and> like_keys db2 = like_keys db))"
proof (cases "find (\<lambda>l. like.post_id l = ident p \<and> like.user_id l = uid) (post_likes db)")
  case None
  let ?new = "\<lparr>created_at = t1, updated_at = t1, deleted_at = None,
                 like.user_id = uid, like.post_id = ident p\<rparr>"
  let ?p1 = "p\<lparr>like_count := like_count p + 1, updated_at := t1\<rparr>"
  let ?db1 = "db\<lparr>post_likes := post_likes db @ [?new],
         posts := map (\<lambda>x. if ident x = ident p then ?p1 else x) (posts db)\<rparr>"
  have f1: "find (\<lambda>l. like.post_id l = ident ?p1 \<and> like.user_id l = uid) (post_likes ?db1) = Some ?new"
    using None by (simp add: find_append)
  have c1: "1 \<le> like_count ?p1" using assms None by simp
  show ?thesis
    unfolding toggle_unliked [OF None] prod.case toggle_liked [OF f1 c1]
    using None by (auto simp add: like_keys_def find_None_iff)
next
  case (Some l)
  then have c: "1 \<le> like_count p" using assms by simp
  let ?p1 = "p\<lparr>like_count := like_count p - 1, updated_at := t1\<rparr>"
  let ?db1 = "db\<lparr>post_likes := filter (\<lambda>l. \<not> (like.post_id l = ident p \<and> like.user_id l = uid)) (post_likes db),
         posts := map (\<lambda>x. if ident x = ident p then ?p1 else x) (posts db)\<rparr>"
  have f1: "find (\<lambda>l. like.post_id l = ident ?p1 \<and> like.user_id l = uid) (post_likes ?db1) = None"
    using find_filter_not [of "\<lambda>l. like.post_id l = ident p \<and> like.user_id l = uid" "post_likes db"]
    by simp
  have k: "like_keys (?db1\<lparr>post_likes := post_likes ?db1 @ [\<lparr>created_at = t2, updated_at = t2, deleted_at = None,
                           like.user_id = uid, like.post_id = ident ?p1\<rparr>]\<rparr>) = like_keys db"
    using like_keys_filter [OF Some, of "\<lparr>created_at = t2, updated_at = t2, deleted_at = None,
                           like.user_id = uid, like.post_id = ident p\<rparr>"]
    by (simp add: like_keys_def)
  show ?thesis
    unfolding toggle_liked [OF Some c] prod.case toggle_unliked [OF f1]
    using k by (auto simp add: like_keys_def)
qed

theorem toggle_twice_witness:
  "(case find (\<lambda>l. like.post_id l = ident ex_post \<and> like.user_id l = ''alice'') (post_likes ex_db) of
      None \<Rightarrow> 0 | Some l \<Rightarrow> 1) \<le> like_count ex_post
   \<and> (case toggle_like_post ex_db ex_post ''alice'' 8 of
        (db1, p1) \<Rightarrow>
          (case toggle_like_post db1 p1 ''alice'' 9 of
             (db2, p2) \<Rightarrow>
               like_count p2 = like_count ex_post \<and> p2 = ex_post\<lparr>updated_at := 9\<rparr>
               \<and> posts db2 = map (\<lambda>x. if ident x = ident ex_post then p2 else x) (posts ex_db)
               \<and> like_keys db2 = like_keys ex_db))"
proof -
  have h: "(case find (\<lambda>l. like.post_id l = ident ex_post \<and> like.user_id l = ''alice'') (post_likes ex_db) of
      None \<Rightarrow> 0 | Some l \<Rightarrow> 1) \<le> like_count ex_post"
    by (simp add: ex_db_def ex_post_def ex_like_def)
  show ?thesis using h toggle_twice [OF h, where ?t1.0 = 8 and ?t2.0 = 9] by (rule conjI)
qed

text \<open>
  C2 as stated ranges over every starting state: with \<^verbatim>\<open>alice\<close>'s like present and
  \<^verbatim>\<open>like_count = 0\<close>, the first toggle floors the count at 0 and the second raises it to 1.
\<close>

theorem toggle_twice_counterexample:
  "find (\<lambda>l. like.post_id l = ''p1'' \<and> like.user_id l = ''alice'') (post_likes ex_db) = Some ex_like
   \<and> like_count (ex_post\<lparr>like_count := 0\<rparr>) = 0
   \<and> (case toggle_like_post (ex_db\<lparr>posts := [ex_post\<lparr>like_count := 0\<rparr>]\<rparr>)
             (ex_post\<lparr>like_count := 0\<rparr>) ''alice'' 8 of
        (db1, p1) \<Rightarrow>
          (case toggle_like_post db1 p1 ''alice'' 9 of
             (db2, p2) \<Rightarrow> like_count p1 = 0 \<and> like_count p2 = 1 \<and> map like_count (posts db2) = [1]))"
  by (simp add: toggle_like_post_def commit_refresh_def Let_def ex_db_def ex_post_def ex_like_def)


section \<open>Review aggregates\<close>

lemma find_replace_city:
  "find (\<lambda>c. ident c = cid \<and> deleted_at c = None) xs = Some c
     \<Longrightarrow> ident row = cid \<Longrightarrow> deleted_at row = None
     \<Longrightarrow> find (\<lambda>c. ident c = cid \<and> deleted_at c = None)
           (map (\<lambda>x. if ident x = cid then row else x) xs) = Some row"
  by (induction xs) (auto split: if_splits)

lemma commit_count:
  "n \<noteq> review_count c \<Longrightarrow>
   commit_refresh t c (c\<lparr>average_rating := a, review_count := n\<rparr>) tbl =
     (map (\<lambda>x. if ident x = ident c
                then c\<lparr>average_rating := a, review_count := n, updated_at := t\<rparr> else x) tbl,
      c\<lparr>average_rating := a, review_count := n, updated_at := t\<rparr>)"
proof -
  assume a: "n \<noteq> review_count c"
  have "review_count (c\<lparr>average_rating := a, review_count := n\<rparr>) \<noteq> review_count c"
    using a by simp
  then have "c\<lparr>average_rating := a, review_count := n\<rparr> \<noteq> c" by metis
  then show ?thesis by (simp add: commit_refresh_def Let_def)
qed

lemma create_city_review_step:
  assumes "get_city_by_id db cid = Some c"
    and "find (\<lambda>r. city_id r = cid \<and> review.user_id r = ident u) (reviews db) = None"
    and "new_average (average_rating c) (review_count c) (ReviewCreate.rating rin) = Inr v"
  shows "\<exists>db' c' rev. create_city_review db cid rin u nid t = (db', Inr rev)
          \<and> get_city_by_id db' cid = Some c' \<and> average_rating c' = Some v
          \<and> review_count c' = review_count c + 1
          \<and> reviews db' = reviews db @ [rev] \<and> review.user_id rev = ident u"
proof -
  have c: "ident c = cid" "deleted_at c = None"
    using assms(1) by (auto simp: get_city_by_id_def find_Some_iff)
  define row where "row = c\<lparr>average_rating := Some v, review_count := review_count c + 1, updated_at := t\<rparr>"
  define rev where "rev = \<lparr>created_at = t, updated_at = t, deleted_at = None, ident = nid,
                  city_id = cid, review.user_id = ident u,
                  review.rating = ReviewCreate.rating rin,
                  review.comment = ReviewCreate.comment rin\<rparr>"
  define db' where "db' = db\<lparr>reviews := reviews db @ [rev],
      cities := map (\<lambda>x. if ident x = cid then row else x) (cities db)\<rparr>"
  have nv: "py_truediv (py_add (py_mul (or_0 (average_rating c)) (PyInt (review_count c)))
              (PyInt (ReviewCreate.rating rin))) (PyInt (review_count c + 1)) = Inr v"
    using assms(3) by (simp add: new_average_def)
  have ne: "review_count c + 1 \<noteq> review_count c" by simp
  have "add_review_to_city db c rin (ident u) nid t = (db', Inr rev)"
    using assms(2) c(1)
    by (simp add: add_review_to_city_def Let_def nv commit_count [OF ne] db'_def row_def rev_def)
  then have 1: "create_city_review db cid rin u nid t = (db', Inr rev)"
    by (simp add: create_city_review_def assms(1))
  have r: "ident row = cid" "deleted_at row = None" using c by (simp_all add: row_def)
  have 2: "get_city_by_id db' cid = Some row"
    using find_replace_city [OF assms(1) [unfolded get_city_by_id_def] r]
    by (simp add: get_city_by_id_def db'_def)
  show ?thesis
    using 1 2 by (simp add: row_def db'_def rev_def)
qed

lemma submit_reviews_exact:
  assumes "get_city_by_id db cid = Some c"
    and "distinct (map (\<lambda>s. ident (req_user s)) subs)"
    and "\<forall>s\<in>set subs. find (\<lambda>r. city_id r = cid \<and> review.user_id r = ident (req_user s))
                           (reviews db) = None"
    and "running_average (average_rating c) (review_count c)
           (map (\<lambda>s. ReviewCreate.rating (req_body s)) subs) = Inr a"
  shows "aggregates_after db cid subs = Some (review_count c + int (length subs), a)"
  using assms
proof (induction subs arbitrary: db c)
  case Nil
  then show ?case by (simp add: aggregates_after_def)
next
  case (Cons s ss)
  obtain v where v: "new_average (average_rating c) (review_count c) (ReviewCreate.rating (req_body s)) = Inr v"
    and ra: "running_average (Some v) (review_count c + 1)
               (map (\<lambda>s. ReviewCreate.rating (req_body s)) ss) = Inr a"
    using Cons.prems(4) by (auto split: sum.splits)
  have f: "find (\<lambda>r. city_id r = cid \<and> review.user_id r = ident (req_user s)) (reviews db) = None"
    using Cons.prems(3) by simp
  obtain db' c' rev where st: "create_city_review db cid (req_body s) (req_user s) (req_id s) (req_time s) = (db', Inr rev)"
    and g: "get_city_by_id db' cid = Some c'" and av: "average_rating c' = Some v"
    and cn: "review_count c' = review_count c + 1"
    and rv: "reviews db' = reviews db @ [rev]" and ru: "review.user_id rev = ident (req_user s)"
    using create_city_review_step [OF Cons.prems(1) f v] by blast
  have d: "distinct (map (\<lambda>s. ident (req_user s)) ss)" using Cons.prems(2) by simp
  have n: "\<forall>s'\<in>set ss. find (\<lambda>r. city_id r = cid \<and> review.user_id r = ident (req_user s'))
                           (reviews db') = None"
  proof
    fix s' assume s': "s' \<in> set ss"
    have "ident (req_user s) \<notin> (\<lambda>s. ident (req_user s)) ` set ss" using Cons.prems(2) by simp
    then have "ident (req_user s') \<noteq> ident (req_user s)" using s' by (metis imageI)
    moreover have "find (\<lambda>r. city_id r = cid \<and> review.user_id r = ident (req_user s')) (reviews db) = None"
      using Cons.prems(3) s' by simp
    ultimately show "find (\<lambda>r. city_id r = cid \<and> review.user_id r = ident (req_user s')) (reviews db') = None"
      using ru by (simp add: rv find_append)
  qed
  have "aggregates_after db' cid ss = Some (review_count c' + int (length ss), a)"
    by (rule Cons.IH [OF g d n]) (simp add: av cn ra)
  moreover have "aggregates_after db cid (s # ss) = aggregates_after db' cid ss"
    by (simp add: aggregates_after_def st)
  ultimately show ?case by (simp add: cn)
qed

lemma ex_step_1: "new_average (Some 0) 0 1 = Inr 1"
  by code_simp

lemma ex_step_2: "new_average (Some 1) 1 3 = Inr 2"
  by code_simp

lemma ex_step_3: "new_average (Some 2) 2 5 = Inr 3"
  by code_simp

lemma ex_step_4: "new_average (Some 3) 3 5 = Inr (7 / 2)"
  by code_simp

lemma ex_step_5: "new_average (Some (7 / 2)) 4 5 = Inr (4278419646001971 / 1125899906842624)"
  by code_simp

lemma ex_step_6: "new_average (Some (4278419646001971 / 1125899906842624)) 5 5 = Inr 4"
  by code_simp

lemma ex_step_7: "new_average (Some 4) 6 5 = Inr (4664442471205157 / 1125899906842624)"
  by code_simp

lemma ex_step_8:
  "new_average (Some (4664442471205157 / 1125899906842624)) 7 1
     = Inr (8444249301319681 / 2251799813685248)"
  by code_simp

lemma ex_step_A: "new_average (Some 0) 0 4 = Inr 4"
  by code_simp

lemma ex_step_B: "new_average (Some 4) 1 2 = Inr 3"
  by code_simp

lemma ex_city0_row: "get_city_by_id ex_db0 ''paris'' = Some ex_city0"
  by (simp add: get_city_by_id_def ex_db0_def ex_city0_def ex_city_def)

lemma no_reviews_find:
  "\<forall>r\<in>set rs. city_id r \<noteq> cid \<Longrightarrow> find (\<lambda>r. city_id r = cid \<and> review.user_id r = u) rs = None"
  by (auto simp add: find_None_iff)

lemma commit_refresh_table:
  "fst (commit_refresh t loaded obj tbl)
     = map (\<lambda>r. if ident r = ident loaded then snd (commit_refresh t loaded obj tbl) else r) tbl"
  by (simp add: commit_refresh_def Let_def)

lemma commit_average:
  "average_rating (snd (commit_refresh t c (c\<lparr>average_rating := a\<rparr>) tbl)) = a
   \<and> review_count (snd (commit_refresh t c (c\<lparr>average_rating := a\<rparr>) tbl)) = review_count c
   \<and> ident (snd (commit_refresh t c (c\<lparr>average_rating := a\<rparr>) tbl)) = ident c"
proof (cases "c\<lparr>average_rating := a\<rparr> = c")
  case True
  then have "average_rating (c\<lparr>average_rating := a\<rparr>) = average_rating c" by simp
  then have "average_rating c = a" by simp
  then show ?thesis using True by (simp add: commit_refresh_def Let_def)
next
  case False
  then show ?thesis by (simp add: commit_refresh_def Let_def)
qed

lemma update_average_bound:
  assumes "1 \<le> n"
  shows "\<exists>avg. py_truediv (py_add (py_mul (or_0 a) (PyInt n)) (PyInt d)) (PyInt n) = Inr avg
           \<and> abs_within 5 (\<bar>case a of None \<Rightarrow> 0 | Some x \<Rightarrow> x\<bar> + \<bar>of_int d\<bar> / of_int n) avg
                (((case a of None \<Rightarrow> 0 | Some x \<Rightarrow> x) * of_int n + of_int d) / of_int n)"
proof -
  define old :: rat where "old = (case a of None \<Rightarrow> 0 | Some x \<Rightarrow> x)"
  define c :: rat where "c = of_int n"
  define e :: rat where "e = of_int d"
  have c: "0 < c" using assms by (simp add: c_def)
  show ?thesis
  proof (cases "old = 0")
    case True
    then have o: "or_0 a = PyInt 0" by (simp add: or_0_def old_def split: option.splits)
    have n0: "n \<noteq> 0" using assms by simp
    have r: "py_truediv (py_add (py_mul (or_0 a) (PyInt n)) (PyInt d)) (PyInt n) = Inr (fl64 (e / c))"
      using n0 by (simp add: o e_def c_def)
    have "abs_within 1 \<bar>e / c\<bar> (fl64 (e / c)) (e / c)" by (rule abs_within_fl64)
    then have "abs_within 5 \<bar>e / c\<bar> (fl64 (e / c)) (e / c)"
      by (rule abs_within_mono) simp_all
    moreover have "\<bar>e / c\<bar> = \<bar>old\<bar> + \<bar>e\<bar> / c" using c True by simp
    moreover have "e / c = (old * c + e) / c" using True by simp
    ultimately have "abs_within 5 (\<bar>old\<bar> + \<bar>e\<bar> / c) (fl64 (e / c)) ((old * c + e) / c)"
      by metis
    then show ?thesis using r unfolding old_def c_def e_def by blast
  next
    case False
    then have o: "or_0 a = PyFloat old" by (simp add: or_0_def old_def split: option.splits)
    define fc where "fc = fl64 c"
    define t1 where "t1 = fl64 (old * fc)"
    define t2 where "t2 = fl64 (t1 + fl64 e)"
    have fc: "0 < fc" unfolding fc_def c_def by (rule fl64_of_int_pos) (use assms in simp)
    have r: "py_truediv (py_add (py_mul (or_0 a) (PyInt n)) (PyInt d)) (PyInt n) = Inr (fl64 (t2 / fc))"
      using fc by (simp add: o t2_def t1_def fc_def c_def e_def)
    have ac: "\<bar>c\<bar> = c" using c by simp
    have w0: "abs_within 0 \<bar>old\<bar> old old" by (rule abs_within_exact)
    have wc: "abs_within 1 \<bar>c\<bar> fc c" unfolding fc_def by (rule abs_within_fl64)
    have "abs_within (0 + 1) (\<bar>old\<bar> * \<bar>c\<bar>) (old * fc) (old * c)"
      by (rule abs_within_mult [OF w0 _ wc]) simp
    then have "abs_within (Suc (0 + 1)) (\<bar>old\<bar> * \<bar>c\<bar>) t1 (old * c)"
      unfolding t1_def by (rule abs_within_round) (simp add: abs_mult)
    then have w1: "abs_within 2 (\<bar>old\<bar> * c) t1 (old * c)" by (simp add: ac eval_nat_numeral)
    have "abs_within 1 \<bar>e\<bar> (fl64 e) e" by (rule abs_within_fl64)
    then have we: "abs_within 2 \<bar>e\<bar> (fl64 e) e" by (rule abs_within_mono) simp_all
    have "abs_within 2 (\<bar>old\<bar> * c + \<bar>e\<bar>) (t1 + fl64 e) (old * c + e)"
      by (rule abs_within_add [OF w1 we])
    moreover have b: "\<bar>old * c + e\<bar> \<le> \<bar>old\<bar> * c + \<bar>e\<bar>"
    proof -
      have "\<bar>old * c\<bar> = \<bar>old\<bar> * c" using c by (simp add: abs_mult)
      then show ?thesis by linarith
    qed
    ultimately have w2: "abs_within (Suc 2) (\<bar>old\<bar> * c + \<bar>e\<bar>) t2 (old * c + e)"
      unfolding t2_def by (rule abs_within_round)
    have "abs_within 1 (1 / c) (1 / fl64 c) (1 / c)" by (rule abs_within_inverse [OF c])
    then have wi: "abs_within 1 \<bar>1 / c\<bar> (1 / fc) (1 / c)" using c by (simp add: fc_def)
    have "abs_within (Suc 2 + 1) ((\<bar>old\<bar> * c + \<bar>e\<bar>) * \<bar>1 / c\<bar>) (t2 * (1 / fc)) ((old * c + e) * (1 / c))"
      by (rule abs_within_mult [OF w2 b wi])
    then have w3: "abs_within 4 ((\<bar>old\<bar> * c + \<bar>e\<bar>) / c) (t2 / fc) ((old * c + e) / c)"
      using c by (simp add: eval_nat_numeral)
    have b2: "\<bar>(old * c + e) / c\<bar> \<le> (\<bar>old\<bar> * c + \<bar>e\<bar>) / c"
    proof -
      have "\<bar>(old * c + e) / c\<bar> = \<bar>old * c + e\<bar> / c" using c by simp
      also have "\<dots> \<le> (\<bar>old\<bar> * c + \<bar>e\<bar>) / c"
        by (rule divide_right_mono [OF b]) (use c in simp)
      finally show ?thesis .
    qed
    have "abs_within (Suc 4) ((\<bar>old\<bar> * c + \<bar>e\<bar>) / c) (fl64 (t2 / fc)) ((old * c + e) / c)"
      by (rule abs_within_round [OF w3 b2])
    moreover have "(\<bar>old\<bar> * c + \<bar>e\<bar>) / c = \<bar>old\<bar> + \<bar>e\<bar> / c"
      using c by (simp add: add_divide_distrib)
    ultimately have "abs_within 5 (\<bar>old\<bar> + \<bar>e\<bar> / c) (fl64 (t2 / fc)) ((old * c + e) / c)"
      by (simp add: eval_nat_numeral)
    then show ?thesis using r unfolding old_def c_def e_def by blast
  qed
qed

lemma ex3_step_1:
  "py_truediv (py_add (py_mul (or_0 (Some 0)) (PyInt 0)) (PyInt 1)) (PyInt 1) = Inr 1"
  by code_simp

lemma ex3_step_2:
  "py_truediv (py_add (py_mul (or_0 (Some 1)) (PyInt 1)) (PyInt 1)) (PyInt 2) = Inr 1"
  by code_simp

lemma ex3_step_3:
  "py_truediv (py_add (py_mul (or_0 (Some 1)) (PyInt 2)) (PyInt 2)) (PyInt 3)
     = Inr (6004799503160661 / 4503599627370496)"
  by code_simp

lemma ex3_update:
  "py_truediv (py_add (py_mul (or_0 (Some (6004799503160661 / 4503599627370496))) (PyInt 3))
       (PyInt (- 1))) (PyInt 3) = Inr 1"
  by code_simp

lemma ex3_exact_rounded:
  "fl64 (13510798882111487 / 13510798882111488) = 9007199254740991 / 9007199254740992"
  by code_simp

lemma ex_update:
  "py_truediv (py_add (py_mul (or_0 (Some 4)) (PyInt 1)) (PyInt (- 2))) (PyInt 1) = Inr 2"
  by code_simp

lemma ex3_reach: "submit_reviews ex_db0 ''paris'' ex_requests3 = Inr ex_db3"
  by (simp add: ex_requests3_def ex_request_def ex_db0_def ex_db_def ex_city0_def ex_city_def
      ex_db3_def ex_city3_def ex_review3_def create_city_review_def get_city_by_id_def
      add_review_to_city_def Let_def commit_refresh_def ex3_step_1 ex3_step_2 ex3_step_3)

lemma ex3_updated:
  "update_review ex_db3 ''review-by-u3'' ''u3''
      \<lparr>ReviewUpdate.rating = Some 1, ReviewUpdate.comment = None\<rparr> 14
    = (ex_db3\<lparr>cities := [ex_city3\<lparr>average_rating := Some 1, updated_at := 14\<rparr>],
         reviews := [ex_review3 ''u1'' 1 11, ex_review3 ''u2'' 1 12,
                     (ex_review3 ''u3'' 1 13)\<lparr>updated_at := 14\<rparr>]\<rparr>,
       Inr ((ex_review3 ''u3'' 1 13)\<lparr>updated_at := 14\<rparr>))"
  by (simp add: update_review_def get_by_id_def ex_db_def ex_city_def
      ex_db3_def ex_city3_def ex_review3_def Let_def commit_refresh_def ex3_update)

text \<open>
  C1, as the code has it. For a city with \<^verbatim>\<open>review_count = 0\<close> and no reviews, after \<open>N \<ge> 1\<close>
  review requests by distinct users with ratings from 1 to 5, every request succeeds,
  \<^verbatim>\<open>review_count\<close> is \<open>N\<close>, and \<^verbatim>\<open>average_rating\<close> is the mean of the ratings up to the
  rounding of the float operations: it lies within the factor \<open>(1 + 2^-53)^(5N)\<close> of the
  exact mean, above or below.
\<close>

theorem review_average_near_mean:
  assumes "get_city_by_id db cid = Some c" and "review_count c = 0"
    and "\<forall>r\<in>set (reviews db). city_id r \<noteq> cid"
    and "distinct (map (\<lambda>s. ident (req_user s)) subs)"
    and "\<forall>s\<in>set subs. 1 \<le> ReviewCreate.rating (req_body s) \<and> ReviewCreate.rating (req_body s) \<le> 5"
    and "subs \<noteq> []"
  shows "\<exists>v. aggregates_after db cid subs = Some (int (length subs), Some v)
            \<and> rel_within (5 * length subs) v
                 (mean (map (\<lambda>s. ReviewCreate.rating (req_body s)) subs))"
proof -
  let ?rs = "map (\<lambda>s. ReviewCreate.rating (req_body s)) subs"
  have ne: "?rs \<noteq> []" using assms(6) by simp
  have ge: "\<forall>r\<in>set ?rs. 1 \<le> r" using assms(5) by simp
  obtain v where v: "running_average (average_rating c) 0 ?rs = Inr (Some v)"
    and w: "rel_within (5 * length ?rs) v (mean ?rs)"
    using running_average_mean [OF ne ge] by blast
  have n: "\<forall>s\<in>set subs. find (\<lambda>r. city_id r = cid \<and> review.user_id r = ident (req_user s))
                           (reviews db) = None"
    using no_reviews_find [OF assms(3)] by simp
  have "aggregates_after db cid subs = Some (review_count c + int (length subs), Some v)"
    by (rule submit_reviews_exact [OF assms(1,4) n]) (simp add: assms(2) v)
  then show ?thesis using w by (simp add: assms(2))
qed

theorem review_average_near_mean_witness:
  "get_city_by_id ex_db0 ''paris'' = Some ex_city0 \<and> review_count ex_city0 = 0
   \<and> reviews ex_db0 = []
   \<and> (\<exists>v. aggregates_after ex_db0 ''paris'' [ex_request ''A'' 4 11, ex_request ''B'' 2 12]
              = Some (2, Some v)
          \<and> rel_within 10 v (mean [4, 2]))
   \<and> aggregates_after ex_db0 ''paris'' [ex_request ''A'' 4 11] = Some (1, Some 4)
   \<and> aggregates_after ex_db0 ''paris'' [ex_request ''A'' 4 11, ex_request ''B'' 2 12]
         = Some (2, Some 3)"
proof -
  have a0: "average_rating ex_city0 = Some 0" by (simp add: ex_city0_def)
  have e1: "aggregates_after ex_db0 ''paris'' [ex_request ''A'' 4 11]
              = Some (review_count ex_city0 + int (length [ex_request ''A'' 4 11]), Some 4)"
    by (rule submit_reviews_exact [OF ex_city0_row])
      (simp_all add: ex_request_def ex_db0_def ex_city0_def ex_step_A)
  have e2: "aggregates_after ex_db0 ''paris'' [ex_request ''A'' 4 11, ex_request ''B'' 2 12]
              = Some (review_count ex_city0
                        + int (length [ex_request ''A'' 4 11, ex_request ''B'' 2 12]), Some 3)"
    by (rule submit_reviews_exact [OF ex_city0_row])
      (simp_all add: ex_request_def ex_db0_def ex_city0_def ex_step_A ex_step_B)
  have c0: "review_count ex_city0 = 0" by (simp add: ex_city0_def)
  have r0: "reviews ex_db0 = []" by (simp add: ex_db0_def)
  have h3: "\<forall>r\<in>set (reviews ex_db0). city_id r \<noteq> ''paris''" by (simp add: r0)
  have h4: "distinct (map (\<lambda>s. ident (req_user s)) [ex_request ''A'' 4 11, ex_request ''B'' 2 12])"
    by (simp add: ex_request_def)
  have h5: "\<forall>s\<in>set [ex_request ''A'' 4 11, ex_request ''B'' 2 12].
       1 \<le> ReviewCreate.rating (req_body s) \<and> ReviewCreate.rating (req_body s) \<le> 5"
    by (simp add: ex_request_def)
  have h6: "[ex_request ''A'' 4 11, ex_request ''B'' 2 12] \<noteq> []" by simp
  show ?thesis
    using ex_city0_row c0 r0 e1 e2 review_average_near_mean [OF ex_city0_row c0 h3 h4 h5 h6]
    by (simp add: ex_request_def)
qed

text \<open>
  C1 as stated asks for the mean itself. After the ratings 1, 3, 5, 5, 5, 5, 5, 1 the stored
  average is 8444249301319681 / 2251799813685248 (Python prints 3.7500000000000004), while
  the mean is 15 / 4, a float: the seventh average times 7 rounds to a total just above 29.
\<close>

theorem review_average_counterexample:
  "aggregates_after ex_db0 ''paris'' ex_requests
     = Some (8, Some (8444249301319681 / 2251799813685248))
   \<and> mean (map (\<lambda>s. ReviewCreate.rating (req_body s)) ex_requests) = 15 / 4
   \<and> (8444249301319681 / 2251799813685248 :: rat) \<noteq> 15 / 4
   \<and> fl64 (15 / 4) = 15 / 4"
proof -
  have c0: "review_count ex_city0 = 0" "average_rating ex_city0 = Some 0"
    by (simp_all add: ex_city0_def)
  have d: "distinct (map (\<lambda>s. ident (req_user s)) ex_requests)"
    by (simp add: ex_requests_def ex_request_def)
  have n: "\<forall>s\<in>set ex_requests.
       find (\<lambda>r. city_id r = ''paris'' \<and> review.user_id r = ident (req_user s)) (reviews ex_db0) = None"
    by (simp add: ex_db0_def)
  have rs: "map (\<lambda>s. ReviewCreate.rating (req_body s)) ex_requests = [1, 3, 5, 5, 5, 5, 5, 1]"
    by (simp add: ex_requests_def ex_request_def)
  have ra: "running_average (average_rating ex_city0) (review_count ex_city0)
       (map (\<lambda>s. ReviewCreate.rating (req_body s)) ex_requests)
         = Inr (Some (8444249301319681 / 2251799813685248))"
    unfolding rs c0
    by (simp add: ex_step_1 ex_step_2 ex_step_3 ex_step_4 ex_step_5 ex_step_6 ex_step_7 ex_step_8)
  have "aggregates_after ex_db0 ''paris'' ex_requests
     = Some (review_count ex_city0 + int (length ex_requests),
             Some (8444249301319681 / 2251799813685248))"
    by (rule submit_reviews_exact [OF ex_city0_row d n ra])
  moreover have "length ex_requests = 8" by (simp add: ex_requests_def)
  moreover have "mean [1, 3, 5, 5, 5, 5, 5, 1] = 15 / 4" by (simp add: mean_def)
  moreover have "fl64 (15 / 4) = 15 / 4" by code_simp
  ultimately show ?thesis by (simp add: rs c0)
qed

text \<open>
  C3, as the code has it. When the author of a review sets its rating to \<open>r_new\<close> and the
  city has at least one review, \<open>update_review\<close> succeeds, the review holds \<open>r_new\<close>, the
  city's \<^verbatim>\<open>review_count\<close> is unchanged, and its new \<^verbatim>\<open>average_rating\<close> is
  \<^verbatim>\<open>(old_average * review_count + (r_new - r_old)) / review_count\<close> up to the rounding of the
  float operations: the two differ by at most
  \<open>((1 + 2^-53)^5 - 1) * (|old_average| + |r_new - r_old| / review_count)\<close>. A \<^verbatim>\<open>NULL\<close> old
  average reads as 0.
\<close>

theorem update_review_average:
  assumes "get_by_id (reviews db) review_id = Some rv" and "review.user_id rv = uid"
    and "get_by_id (cities db) (city_id rv) = Some c" and "1 \<le> review_count c"
    and "ReviewUpdate.rating review_in = Some r_new"
  shows "\<exists>avg db' rv'.
           update_review db review_id uid review_in t = (db', Inr rv')
         \<and> review.rating rv' = r_new
         \<and> map_option (\<lambda>c'. (average_rating c', review_count c'))
              (get_by_id (cities db') (city_id rv)) = Some (Some avg, review_count c)
         \<and> abs_within 5
              (\<bar>case average_rating c of None \<Rightarrow> 0 | Some a \<Rightarrow> a\<bar>
                 + \<bar>of_int (r_new - review.rating rv)\<bar> / of_int (review_count c))
              avg
              (((case average_rating c of None \<Rightarrow> 0 | Some a \<Rightarrow> a) * of_int (review_count c)
                  + of_int (r_new - review.rating rv)) / of_int (review_count c))"
proof -
  obtain avg where avg: "py_truediv
             (py_add (py_mul (or_0 (average_rating c)) (PyInt (review_count c)))
                (PyInt (r_new - review.rating rv)))
             (PyInt (review_count c)) = Inr avg"
    and bnd: "abs_within 5
              (\<bar>case average_rating c of None \<Rightarrow> 0 | Some a \<Rightarrow> a\<bar>
                 + \<bar>of_int (r_new - review.rating rv)\<bar> / of_int (review_count c))
              avg
              (((case average_rating c of None \<Rightarrow> 0 | Some a \<Rightarrow> a) * of_int (review_count c)
                  + of_int (r_new - review.rating rv)) / of_int (review_count c))"
    using update_average_bound [OF assms(4), of "average_rating c" "r_new - review.rating rv"]
    by blast
  define r2 where "r2 = (case ReviewUpdate.comment review_in of
        Some x \<Rightarrow> rv\<lparr>review.rating := r_new, review.comment := Some x\<rparr>
      | None \<Rightarrow> rv\<lparr>review.rating := r_new\<rparr>)"
  define rres where "rres = commit_refresh t rv r2 (reviews db)"
  define cres where "cres = commit_refresh t c (c\<lparr>average_rating := Some avg\<rparr>) (cities db)"
  have u: "update_review db review_id uid review_in t =
             (db\<lparr>reviews := fst rres, cities := fst cres\<rparr>, Inr (snd rres))"
    using assms(1,2,3,5) avg
    by (simp add: update_review_def Let_def r2_def rres_def cres_def split_beta
        split: option.splits)
  have r2r: "review.rating r2 = r_new"
    by (simp add: r2_def split: option.splits)
  have rr: "review.rating (snd rres) = r_new"
  proof (cases "r2 = rv")
    case True
    then have "snd rres = r2" by (simp add: rres_def commit_refresh_def Let_def)
    then show ?thesis using r2r by simp
  next
    case False
    then have "snd rres = r2\<lparr>updated_at := t\<rparr>" by (simp add: rres_def commit_refresh_def Let_def)
    then show ?thesis using r2r by simp
  qed
  have ci: "ident c = city_id rv" using assms(3) by (rule get_by_id_ident)
  have ca: "average_rating (snd cres) = Some avg" "review_count (snd cres) = review_count c"
    "ident (snd cres) = ident c"
    using commit_average [of t c "Some avg" "cities db"] by (simp_all add: cres_def)
  have ct: "fst cres = map (\<lambda>r. if ident r = city_id rv then snd cres else r) (cities db)"
    unfolding cres_def ci [symmetric] by (rule commit_refresh_table)
  have g: "get_by_id (fst cres) (city_id rv) = Some (snd cres)"
    unfolding ct by (rule get_by_id_replace [OF assms(3)]) (simp add: ca ci)
  have g': "map_option (\<lambda>c'. (average_rating c', review_count c'))
              (get_by_id (cities (db\<lparr>reviews := fst rres, cities := fst cres\<rparr>)) (city_id rv))
            = Some (Some avg, review_count c)"
    using g ca by simp
  from u rr g' bnd show ?thesis by blast
qed

theorem update_review_average_witness:
  "get_by_id (reviews ex_db) ''r1'' = Some ex_review \<and> review.user_id ex_review = ''alice''
   \<and> get_by_id (cities ex_db) (city_id ex_review) = Some ex_city \<and> 1 \<le> review_count ex_city
   \<and> average_rating ex_city = Some 4 \<and> review.rating ex_review = 4
   \<and> map_option (\<lambda>c'. (average_rating c', review_count c'))
        (get_by_id (cities (fst (update_review ex_db ''r1'' ''alice''
              \<lparr>ReviewUpdate.rating = Some 2, ReviewUpdate.comment = None\<rparr> 9))) ''paris'')
        = Some (Some 2, 1)
   \<and> (\<exists>avg db' rv'.
           update_review ex_db ''r1'' ''alice''
              \<lparr>ReviewUpdate.rating = Some 2, ReviewUpdate.comment = None\<rparr> 9 = (db', Inr rv')
         \<and> review.rating rv' = 2
         \<and> map_option (\<lambda>c'. (average_rating c', review_count c'))
              (get_by_id (cities db') (city_id ex_review)) = Some (Some avg, review_count ex_city)
         \<and> abs_within 5
              (\<bar>case average_rating ex_city of None \<Rightarrow> 0 | Some a \<Rightarrow> a\<bar>
                 + \<bar>of_int (2 - review.rating ex_review)\<bar> / of_int (review_count ex_city))
              avg
              (((case average_rating ex_city of None \<Rightarrow> 0 | Some a \<Rightarrow> a) * of_int (review_count ex_city)
                  + of_int (2 - review.rating ex_review)) / of_int (review_count ex_city)))"
proof -
  have h1: "get_by_id (reviews ex_db) ''r1'' = Some ex_review"
    by (simp add: get_by_id_def ex_db_def ex_review_def)
  have h2: "review.user_id ex_review = ''alice''" by (simp add: ex_review_def)
  have h3: "get_by_id (cities ex_db) (city_id ex_review) = Some ex_city"
    by (simp add: get_by_id_def ex_db_def ex_review_def ex_city_def)
  have h4: "1 \<le> review_count ex_city" by (simp add: ex_city_def)
  have h5: "ReviewUpdate.rating \<lparr>ReviewUpdate.rating = Some 2, ReviewUpdate.comment = None\<rparr> = Some 2"
    by simp
  have v: "average_rating ex_city = Some 4" "review.rating ex_review = 4"
    by (simp_all add: ex_city_def ex_review_def)
  have e: "map_option (\<lambda>c'. (average_rating c', review_count c'))
        (get_by_id (cities (fst (update_review ex_db ''r1'' ''alice''
              \<lparr>ReviewUpdate.rating = Some 2, ReviewUpdate.comment = None\<rparr> 9))) ''paris'')
        = Some (Some 2, 1)"
    by (simp add: update_review_def get_by_id_def ex_db_def ex_city_def ex_review_def Let_def
        commit_refresh_def ex_update)
  note t = update_review_average [OF h1 h2 h3 h4 h5, of 9]
  from h1 h2 h3 h4 v e t show ?thesis by (intro conjI)
qed

text \<open>
  C3 as stated asks for the value of the formula itself. From \<open>ex_db0\<close> the ratings 1, 1, 2
  lead to \<open>ex_db3\<close>, where Paris has three reviews and the average
  6004799503160661 / 4503599627370496. When \<^verbatim>\<open>u3\<close> changes the rating 2 to 1, the stored
  average is 1, while the formula gives 13510798882111487 / 13510798882111488, which is not
  1 and does not round to 1 either (Python prints 0.9999999999999999): the old average
  times 3 rounds up to 4.
\<close>

theorem update_review_average_counterexample:
  "submit_reviews ex_db0 ''paris'' ex_requests3 = Inr ex_db3
   \<and> average_rating ex_city3 = Some (6004799503160661 / 4503599627370496)
   \<and> review_count ex_city3 = 3
   \<and> review.rating (ex_review3 ''u3'' 2 13) = 2
   \<and> update_review ex_db3 ''review-by-u3'' ''u3''
        \<lparr>ReviewUpdate.rating = Some 1, ReviewUpdate.comment = None\<rparr> 14
      = (ex_db3\<lparr>cities := [ex_city3\<lparr>average_rating := Some 1, updated_at := 14\<rparr>],
           reviews := [ex_review3 ''u1'' 1 11, ex_review3 ''u2'' 1 12,
                       (ex_review3 ''u3'' 1 13)\<lparr>updated_at := 14\<rparr>]\<rparr>,
         Inr ((ex_review3 ''u3'' 1 13)\<lparr>updated_at := 14\<rparr>))
   \<and> (6004799503160661 / 4503599627370496 * 3 + (1 - 2)) / 3
        = (13510798882111487 / 13510798882111488 :: rat)
   \<and> (13510798882111487 / 13510798882111488 :: rat) \<noteq> 1
   \<and> fl64 (13510798882111487 / 13510798882111488) = 9007199254740991 / 9007199254740992"
proof -
  have a: "average_rating ex_city3 = Some (6004799503160661 / 4503599627370496)"
    "review_count ex_city3 = 3" "review.rating (ex_review3 ''u3'' 2 13) = 2"
    by (simp_all add: ex_city3_def ex_review3_def)
  have x: "(6004799503160661 / 4503599627370496 * 3 + (1 - 2)) / 3
        = (13510798882111487 / 13510798882111488 :: rat)" by simp
  have n: "(13510798882111487 / 13510798882111488 :: rat) \<noteq> 1" by simp
  from ex3_reach a ex3_updated x n ex3_exact_rounded show ?thesis by (intro conjI)
qed


section \<open>Soft delete and restore\<close>



text \<open>
  The route that restores a comment never succeeds: \<open>get_comment_by_id\<close> returns rows
  whose \<^verbatim>\<open>deleted_at\<close> is \<^verbatim>\<open>None\<close> only, and for those the route raises 400.
\<close>

lemma route_restore_comment_fails:
  "\<exists>e. route_restore_comment db pid comment_id current_user now = (db, Inl e)"
proof (cases "get_comment_by_id db comment_id")
  case None
  then show ?thesis by (simp add: route_restore_comment_def)
next
  case (Some m)
  then have "deleted_at m = None" by (auto simp: get_comment_by_id_def find_Some_iff)
  then show ?thesis using Some by (simp add: route_restore_comment_def)
qed

text \<open>
  C8 asks that an entity deleted and then restored be as it was. For a city, a flight and
  a post it is (\<open>delete_restore_city\<close>, \<open>delete_restore_flight\<close>, \<open>delete_restore_post\<close>); for
  a comment the program cannot restore at all. \<^verbatim>\<open>alice\<close> deletes her comment \<^verbatim>\<open>c1\<close> through
  the route; her request to restore it is answered 404 \<^verbatim>\<open>Comment not found\<close>, because the
  route looks the comment up among the rows that are not deleted, and the row stays deleted.
\<close>

theorem deleted_comment_not_restored:
  "route_delete_comment ex_db ''p1'' ''c1'' (ex_user\<lparr>deleted_at := None\<rparr>) 8
     = (ex_db\<lparr>comments := [ex_comment\<lparr>deleted_at := Some 8, updated_at := 8\<rparr>]\<rparr>,
        Inr ''Comment successfully deleted'')
   \<and> route_restore_comment
        (ex_db\<lparr>comments := [ex_comment\<lparr>deleted_at := Some 8, updated_at := 8\<rparr>]\<rparr>)
        ''p1'' ''c1'' (ex_user\<lparr>deleted_at := None\<rparr>) 9
     = (ex_db\<lparr>comments := [ex_comment\<lparr>deleted_at := Some 8, updated_at := 8\<rparr>]\<rparr>,
        Inl (HTTPException 404 ''Comment not found''))"
  by (simp add: route_delete_comment_def route_restore_comment_def get_comment_by_id_def
      soft_delete_comment_def commit_refresh_def Let_def ex_db_def ex_comment_def ex_user_def)


section \<open>Authentication\<close>



section \<open>The posts listing\<close>

text \<open>
  C10. Whatever the page, size and filters, \<open>list_posts\<close> ends in \<^verbatim>\<open>TypeError\<close>: it calls
  \<open>get_posts_paginated\<close> with the keywords \<^verbatim>\<open>q\<close> and \<^verbatim>\<open>author_id\<close>, which the handler's
  signature does not have, so no listing is ever returned.
\<close>

theorem list_posts_type_error:
  "list_posts db pg sz fid q author_id = Inl TypeError"
  by (simp add: list_posts_def call_by_keywords_def get_posts_paginated_signature_def)

end
